theory Spec2Isabelle
  imports Complex_Main
begin

text \<open>
  A model of \<^verbatim>\<open>artist.py\<close> (A.R.T.I.S.T.): the speech cache \<^verbatim>\<open>speak_text\<close>, the verse
  selection \<^verbatim>\<open>get_best_verse\<close>, and the session loop of \<^verbatim>\<open>main\<close> with its event
  polling, daydream timer and daydream counter. Functions that talk to the outside world take
  the world and return a result that is either a value or an exception, each with the world
  as it then is.
\<close>

section \<open>Exceptions and Python primitives\<close>

text \<open>
  The exceptions that can leave a function of \<^verbatim>\<open>artist.py\<close>. \<open>ApiError\<close> stands for
  whatever an external service call raises (OpenAI, Azure).
\<close>

datatype exn = ApiError | UnboundLocalError | IndexError | ValueError | WaveError

text \<open>
  Python strings are sequences of code points. A \<^typ>\<open>char\<close> is read here as a code point
  below 256 (Latin-1), so the strings of this theory are the Python strings whose code points
  are all below 256. On these, \<^verbatim>\<open>str.isdigit\<close> holds for the ASCII digits and for the
  superscript digits U+00B2, U+00B3 and U+00B9 (Numeric_Type=Digit), while \<^verbatim>\<open>int(c)\<close>
  parses the ASCII digits only and raises \<^verbatim>\<open>ValueError\<close> on every other single character.
\<close>

definition isdecimal :: "char \<Rightarrow> bool" where
  "isdecimal c = (48 \<le> (of_char c :: nat) \<and> (of_char c :: nat) \<le> 57)"

definition isdigit :: "char \<Rightarrow> bool" where
  "isdigit c = (isdecimal c \<or> (of_char c :: nat) = 178 \<or> (of_char c :: nat) = 179
                \<or> (of_char c :: nat) = 185)"

definition int_of_char :: "char \<Rightarrow> exn + int" where
  "int_of_char c = (if isdecimal c then Inr (int (of_char c) - 48) else Inl ValueError)"

text \<open>\<^verbatim>\<open>xs[i]\<close>: a negative index counts from the end, anything out of range raises.\<close>

definition subscript :: "'a list \<Rightarrow> int \<Rightarrow> exn + 'a" where
  "subscript xs i =
     (if 0 \<le> i \<and> i < int (length xs) then Inr (xs ! nat i)
      else if i < 0 \<and> 0 \<le> i + int (length xs) then Inr (xs ! nat (i + int (length xs)))
      else Inl IndexError)"

text \<open>
  \<^verbatim>\<open>random.choice(xs)\<close> and \<^verbatim>\<open>random.randint(a, b)\<close>, as functions of the entropy \<open>k\<close>
  the generator supplies: the result is always in range, whatever \<open>k\<close> is.
\<close>

definition choice :: "'a list \<Rightarrow> nat \<Rightarrow> exn + 'a" where
  "choice xs k = (if xs = [] then Inl IndexError else Inr (xs ! (k mod length xs)))"

definition randint :: "int \<Rightarrow> int \<Rightarrow> nat \<Rightarrow> exn + int" where
  "randint a b k = (if b < a then Inl ValueError else Inr (a + int (k mod nat (b - a + 1))))"

fun str_of_nat :: "nat \<Rightarrow> string" where
  "str_of_nat n =
     (if n < 10 then [char_of (48 + n)]
      else str_of_nat (n div 10) @ [char_of (48 + n mod 10)])"

text \<open>\<^verbatim>\<open>os.path.join(a, b)\<close> on a POSIX system, for two components.\<close>

definition path_join :: "string \<Rightarrow> string \<Rightarrow> string" where
  "path_join a b =
     (if b \<noteq> [] \<and> hd b = CHR ''/'' then b
      else if a = [] \<or> last a = CHR ''/'' then a @ b
      else a @ ''/'' @ b)"

section \<open>The outside world\<close>

text \<open>
  Everything the program does to its surroundings is recorded, in order, in a trace of
  actions. Logging is left out. The layout of a finished creation (lines 666 to 726 and
  742 to 744 of \<^verbatim>\<open>artist.py\<close>: font fitting, blitting, display update) is one action
  \<open>ShowCreation\<close>; that code only calls display primitives and is taken to return.
\<close>

datatype action =
    ShowStatus string
  | ShowCreation string string
  | Synthesize string
  | Play string
  | Record
  | Transcribe
  | ChatCompletion "(string \<times> string) list"
  | Moderation string
  | ImageCreate string
  | WriteText string string
  | WriteImage string string
  | SaveScreenshot string
  | WriteWave string
  | PygameQuit

text \<open>
  A file is a parsed wave file (channels, sample width, frame rate, data bytes), a saved
  picture of the display, or any other content.
\<close>

datatype content = Raw string | Wave int int int string | Picture

record world =
  tick :: nat
  files :: "string \<rightharpoonup> content"
  trace :: "action list"

text \<open>
  The environment fixes what the outside world answers. Every read of it is indexed by the
  number of reads made so far (\<open>tick\<close>), so an environment is one complete script of
  events, clock readings, random numbers, recordings and service replies. \<open>None\<close> as a
  service reply means that the call raises. Clock readings, floats in Python, are reals here;
  the hash function is a parameter.
\<close>

datatype key = K_ESCAPE | K_SPACE | K_d | K_other nat

datatype pygame_event = KEYDOWN key | JOYBUTTONDOWN int | OtherEvent

record env =
  pygame_event_get :: "nat \<Rightarrow> pygame_event list"
  js_get_button :: "nat \<Rightarrow> int \<Rightarrow> bool"
  monotonic :: "nat \<Rightarrow> real"
  entropy :: "nat \<Rightarrow> nat"
  microphone :: "nat \<Rightarrow> string \<times> bool"
  audio_transcribe :: "nat \<Rightarrow> string option"
  chat_completion :: "nat \<Rightarrow> string option"
  moderation_flagged :: "nat \<Rightarrow> bool option"
  image_create :: "nat \<Rightarrow> string option"
  azure_tts :: "nat \<Rightarrow> string option"
  sha256_hexdigest :: "string \<Rightarrow> string"

datatype 'a result = Ok 'a world | Raise exn world

fun world_of :: "'a result \<Rightarrow> world" where
  "world_of (Ok x w) = w"
| "world_of (Raise e w) = w"

fun raised :: "'a result \<Rightarrow> exn option" where
  "raised (Ok x w) = None"
| "raised (Raise e w) = Some e"

fun returned :: "'a result \<Rightarrow> 'a option" where
  "returned (Ok x w) = Some x"
| "returned (Raise e w) = None"

fun io_bind :: "'a result \<Rightarrow> ('a \<Rightarrow> world \<Rightarrow> 'b result) \<Rightarrow> 'b result" where
  "io_bind (Ok x w) f = f x w"
| "io_bind (Raise e w) f = Raise e w"

fun lift :: "exn + 'a \<Rightarrow> world \<Rightarrow> 'a result" where
  "lift (Inl e) w = Raise e w"
| "lift (Inr x) w = Ok x w"

definition emit :: "action \<Rightarrow> world \<Rightarrow> world" where
  "emit a w = w\<lparr>trace := trace w @ [a]\<rparr>"

definition advance :: "world \<Rightarrow> world" where
  "advance w = w\<lparr>tick := Suc (tick w)\<rparr>"

definition write_file :: "string \<Rightarrow> content \<Rightarrow> world \<Rightarrow> world" where
  "write_file name f w = w\<lparr>files := (files w)(name \<mapsto> f)\<rparr>"

definition random_choice :: "env \<Rightarrow> 'a list \<Rightarrow> world \<Rightarrow> 'a result" where
  "random_choice ev xs w = lift (choice xs (entropy ev (tick w))) (advance w)"

definition random_randint :: "env \<Rightarrow> int \<Rightarrow> int \<Rightarrow> world \<Rightarrow> int result" where
  "random_randint ev a b w = lift (randint a b (entropy ev (tick w))) (advance w)"

definition time_monotonic :: "env \<Rightarrow> world \<Rightarrow> real result" where
  "time_monotonic ev w = Ok (monotonic ev (tick w)) (advance w)"

section \<open>ChatCharacter\<close>

record chat_character =
  system_prompt :: string
  messages :: "(string \<times> string) list"

definition reset :: "chat_character \<Rightarrow> chat_character" where
  "reset c = c\<lparr>messages := [(''system'', system_prompt c)]\<rparr>"

text \<open>
  \<^verbatim>\<open>get_chat_response\<close> appends the user turn, calls the completion service with the whole
  transcript and appends the reply. It returns the updated character and the reply's content.
\<close>

definition get_chat_response ::
  "env \<Rightarrow> chat_character \<Rightarrow> string \<Rightarrow> world \<Rightarrow> (chat_character \<times> string) result" where
  "get_chat_response ev c message w =
     (let c1 = c\<lparr>messages := messages c @ [(''user'', message)]\<rparr>;
          w1 = emit (ChatCompletion (messages c1)) w
      in case chat_completion ev (tick w1) of
           None \<Rightarrow> Raise ApiError (advance w1)
         | Some content \<Rightarrow>
             Ok (c1\<lparr>messages := messages c1 @ [(''assistant'', content)]\<rparr>, content) (advance w1))"

section \<open>get\_best\_verse\<close>

text \<open>The loop of lines 293 to 302: one completion per verse, on the same transcript.\<close>

fun poet_verses ::
  "env \<Rightarrow> nat \<Rightarrow> string \<Rightarrow> chat_character \<Rightarrow> string list \<Rightarrow> world
     \<Rightarrow> (chat_character \<times> string list) result" where
  "poet_verses ev 0 prompt poet verses w = Ok (poet, verses) w"
| "poet_verses ev (Suc n) prompt poet verses w =
     io_bind (get_chat_response ev poet prompt w)
       (\<lambda>(poet', verse) w'. poet_verses ev n prompt poet' (verses @ [verse]) w')"

definition critic_message :: "string \<Rightarrow> string list \<Rightarrow> string" where
  "critic_message user_prompt verses =
     ''Theme: '' @ user_prompt @ [CHR 0x0A] @
     concat (map (\<lambda>(i, verse). ''Poem '' @ str_of_nat i @ '': '' @ verse @ [CHR 0x0A])
                 (zip [1 ..< Suc (length verses)] verses))"

text \<open>
  The scan of lines 318 to 322: the first character for which \<^verbatim>\<open>isdigit\<close> holds is
  handed to \<^verbatim>\<open>int\<close>, and the loop stops there.
\<close>

fun chosen_poem :: "string \<Rightarrow> exn + int option" where
  "chosen_poem [] = Inr None"
| "chosen_poem (c # cs) =
     (if isdigit c then (case int_of_char c of Inl e \<Rightarrow> Inl e | Inr d \<Rightarrow> Inr (Some d))
      else chosen_poem cs)"

definition get_best_verse ::
  "env \<Rightarrow> chat_character \<Rightarrow> chat_character \<Rightarrow> string \<Rightarrow> string \<Rightarrow> int \<Rightarrow> world
     \<Rightarrow> (chat_character \<times> chat_character \<times> string) result" where
  "get_best_verse ev poet critic base_prompt user_prompt num_verses w =
     io_bind (poet_verses ev (nat num_verses) (base_prompt @ '' '' @ user_prompt) (reset poet) [] w)
       (\<lambda>(poet', verses) w1.
     io_bind (get_chat_response ev (reset critic) (critic_message user_prompt verses) w1)
       (\<lambda>(critic', critic_verdict) w2.
     io_bind (lift (chosen_poem critic_verdict) w2)
       (\<lambda>chosen w3.
     io_bind (case chosen of
                Some d \<Rightarrow> lift (subscript verses (d - 1)) w3
              | None \<Rightarrow> random_choice ev verses w3)
       (\<lambda>verse w4. Ok (poet', critic', verse) w4))))"

section \<open>speak\_text\<close>

record azure_speech =
  language :: string
  gender :: string
  voice :: string

record audio_player =
  sample_width :: int
  channels :: int
  rate :: int

text \<open>
  What \<^verbatim>\<open>wave\<close> makes of \<^verbatim>\<open>setnchannels\<close>, \<^verbatim>\<open>setsampwidth\<close>, \<^verbatim>\<open>setframerate\<close> and
  \<^verbatim>\<open>writeframes\<close>: a parameter out of range raises \<^verbatim>\<open>wave.Error\<close>.
\<close>

definition wave_write :: "int \<Rightarrow> int \<Rightarrow> int \<Rightarrow> string \<Rightarrow> exn + content" where
  "wave_write nchannels sampwidth framerate data =
     (if nchannels < 1 then Inl WaveError
      else if sampwidth < 1 \<or> 4 < sampwidth then Inl WaveError
      else if framerate \<le> 0 then Inl WaveError
      else Inr (Wave nchannels sampwidth framerate data))"

text \<open>
  \<^verbatim>\<open>f.readframes(f.getnframes())\<close> on a file opened with \<^verbatim>\<open>wave.open(name, "rb")\<close>: the
  whole frames of the data chunk. A file that is not a wave file raises.
\<close>

fun readframes :: "content \<Rightarrow> exn + string" where
  "readframes (Wave nchannels sampwidth framerate data) =
     (if nchannels < 1 \<or> sampwidth < 1 then Inl WaveError
      else Inr (take (length data div nat (nchannels * sampwidth) * nat (nchannels * sampwidth))
                  data))"
| "readframes (Raw data) = Inl WaveError"
| "readframes Picture = Inl WaveError"

definition text_to_speech :: "env \<Rightarrow> string \<Rightarrow> world \<Rightarrow> string result" where
  "text_to_speech ev text w =
     (let w1 = emit (Synthesize text) w
      in case azure_tts ev (tick w1) of
           None \<Rightarrow> Raise ApiError (advance w1)
         | Some audio_data \<Rightarrow> Ok audio_data (advance w1))"

definition cache_filename :: "env \<Rightarrow> string \<Rightarrow> azure_speech \<Rightarrow> string \<Rightarrow> string" where
  "cache_filename ev cache_dir speech_svc text =
     path_join cache_dir
       (sha256_hexdigest ev (language speech_svc @ gender speech_svc @ voice speech_svc @ text)
          @ ''.wav'')"

text \<open>
  \<^verbatim>\<open>wave.open(filename, "wb")\<close> creates the file before the parameters are set, so a
  refused parameter leaves an empty file behind.
\<close>

definition speak_text ::
  "env \<Rightarrow> string \<Rightarrow> string \<Rightarrow> audio_player \<Rightarrow> azure_speech \<Rightarrow> world \<Rightarrow> unit result" where
  "speak_text ev text cache_dir player speech_svc w =
     (let filename = cache_filename ev cache_dir speech_svc text
      in io_bind
           (if files w filename = None then
              io_bind (text_to_speech ev text w)
                (\<lambda>audio_data w1.
                   case wave_write (channels player) (sample_width player) (rate player) audio_data of
                     Inl e \<Rightarrow> Raise e (write_file filename (Raw []) w1)
                   | Inr f \<Rightarrow> Ok () (emit (WriteWave filename) (write_file filename f w1)))
            else Ok () w)
           (\<lambda>_ w2.
              case files w2 filename of
                None \<Rightarrow> Raise WaveError w2
              | Some f \<Rightarrow>
                  io_bind (lift (readframes f) w2) (\<lambda>frames w3. Ok () (emit (Play frames) w3))))"

section \<open>Transcriber, moderation, events, file names\<close>

record transcriber =
  temp_dir :: string
  t_channels :: int
  t_sample_width :: int
  t_framerate :: int

text \<open>
  \<^verbatim>\<open>Transcriber.transcribe\<close> and \<^verbatim>\<open>check_moderation\<close>: when the service call raises, the
  handler formats the local \<^verbatim>\<open>response\<close>, which was never bound, so what leaves the
  function is \<^verbatim>\<open>UnboundLocalError\<close>.
\<close>

definition transcribe :: "env \<Rightarrow> transcriber \<Rightarrow> string \<Rightarrow> world \<Rightarrow> string result" where
  "transcribe ev tr audio_stream w =
     (let temp_file_name = path_join (temp_dir tr) ''input_audio.wav''
      in case wave_write (t_channels tr) (t_sample_width tr) (t_framerate tr) audio_stream of
           Inl e \<Rightarrow> Raise e (write_file temp_file_name (Raw []) w)
         | Inr f \<Rightarrow>
             (let w1 = emit Transcribe (emit (WriteWave temp_file_name) (write_file temp_file_name f w))
              in case audio_transcribe ev (tick w1) of
                   None \<Rightarrow> Raise UnboundLocalError (advance w1)
                 | Some text \<Rightarrow> Ok text (advance w1)))"

definition check_moderation :: "env \<Rightarrow> string \<Rightarrow> world \<Rightarrow> bool result" where
  "check_moderation ev m w =
     (let w1 = emit (Moderation m) w
      in case moderation_flagged ev (tick w1) of
           None \<Rightarrow> Raise UnboundLocalError (advance w1)
         | Some flagged \<Rightarrow> Ok (\<not> flagged) (advance w1))"

datatype status = Quit | Next | Daydream

text \<open>
  \<^verbatim>\<open>check_for_event\<close> over the drained event queue; \<open>js\<close> says whether a joystick is
  connected and \<open>get_button\<close> reads its buttons.
\<close>

fun check_for_event ::
  "bool \<Rightarrow> (int \<Rightarrow> bool) \<Rightarrow> int \<Rightarrow> int \<Rightarrow> int \<Rightarrow> int \<Rightarrow> pygame_event list \<Rightarrow> status option" where
  "check_for_event js get_button generate_button daydream_button shutdown_hold_button
       shutdown_press_button [] = None"
| "check_for_event js get_button generate_button daydream_button shutdown_hold_button
       shutdown_press_button (KEYDOWN k # events) =
     (if k = K_ESCAPE then Some Quit
      else if k = K_SPACE then Some Next
      else if k = K_d then Some Daydream
      else check_for_event js get_button generate_button daydream_button shutdown_hold_button
             shutdown_press_button events)"
| "check_for_event js get_button generate_button daydream_button shutdown_hold_button
       shutdown_press_button (JOYBUTTONDOWN button # events) =
     (if js \<and> button = shutdown_press_button \<and> get_button shutdown_hold_button then Some Quit
      else if js \<and> button = generate_button then Some Next
      else if js \<and> button = daydream_button then Some Daydream
      else check_for_event js get_button generate_button daydream_button shutdown_hold_button
             shutdown_press_button events)"
| "check_for_event js get_button generate_button daydream_button shutdown_hold_button
       shutdown_press_button (OtherEvent # events) =
     check_for_event js get_button generate_button daydream_button shutdown_hold_button
       shutdown_press_button events"

definition ascii_lowercase :: string where
  "ascii_lowercase = ''abcdefghijklmnopqrstuvwxyz''"

fun get_random_string :: "env \<Rightarrow> nat \<Rightarrow> world \<Rightarrow> string result" where
  "get_random_string ev 0 w = Ok [] w"
| "get_random_string ev (Suc n) w =
     io_bind (random_choice ev ascii_lowercase w)
       (\<lambda>c w1. io_bind (get_random_string ev n w1) (\<lambda>cs w2. Ok (c # cs) w2))"

section \<open>The session loop of main\<close>

text \<open>The entries of \<^verbatim>\<open>config.json\<close> that the loop reads.\<close>

record config =
  speech_cache_dir :: string
  transcribe_temp_dir :: string
  output_dir :: string
  speech_language :: string
  speech_gender :: string
  speech_voice :: string
  input_sample_rate :: int
  output_sample_rate :: int
  generate_button :: int
  daydream_button :: int
  shutdown_hold_button :: int
  shutdown_press_button :: int
  image_base_prompt :: string
  num_verses :: int
  min_daydream_time :: int
  max_daydream_time :: int
  max_consecutive_daydreams :: int
  artist_base_prompt :: string
  verse_base_prompt :: string
  welcome_words :: "string list"
  welcome_lines :: "string list"
  working_lines :: "string list"
  finished_lines :: "string list"
  failed_lines :: "string list"

text \<open>The local variables of \<^verbatim>\<open>main\<close> that live across iterations.\<close>

record session =
  js :: bool
  start_new :: bool
  daydream :: bool
  consecutive_daydreams :: int
  msg :: string
  next_change_time :: real
  ai_artist :: chat_character
  poet :: chat_character
  critic :: chat_character

datatype outcome = Running session world | Shutdown world | Crashed exn world

fun outcome_world :: "outcome \<Rightarrow> world" where
  "outcome_world (Running s w) = w"
| "outcome_world (Shutdown w) = w"
| "outcome_world (Crashed e w) = w"

fun running :: "outcome \<Rightarrow> session option" where
  "running (Running s w) = Some s"
| "running (Shutdown w) = None"
| "running (Crashed e w) = None"

fun to_outcome :: "session result \<Rightarrow> outcome" where
  "to_outcome (Ok s w) = Running s w"
| "to_outcome (Raise e w) = Crashed e w"

definition speak :: "config \<Rightarrow> env \<Rightarrow> string \<Rightarrow> world \<Rightarrow> unit result" where
  "speak cfg ev text w =
     speak_text ev text (speech_cache_dir cfg)
       \<lparr>sample_width = 2, channels = 1, rate = output_sample_rate cfg\<rparr>
       \<lparr>language = speech_language cfg, gender = speech_gender cfg, voice = speech_voice cfg\<rparr> w"

text \<open>
  \<^verbatim>\<open>next_change_time = time.monotonic() + random.randint(min_daydream_time, max_daydream_time)\<close>,
  the two bounds converted from minutes to seconds.
\<close>

definition reschedule :: "config \<Rightarrow> env \<Rightarrow> session \<Rightarrow> world \<Rightarrow> session result" where
  "reschedule cfg ev s w =
     io_bind (time_monotonic ev w)
       (\<lambda>now w1.
     io_bind (random_randint ev (min_daydream_time cfg * 60) (max_daydream_time cfg * 60) w1)
       (\<lambda>r w2. Ok (s\<lparr>next_change_time := now + real_of_int r\<rparr>) w2))"

text \<open>Lines 755 to 768 and 770 to 783: the two identical failure branches.\<close>

definition creation_failed :: "config \<Rightarrow> env \<Rightarrow> session \<Rightarrow> world \<Rightarrow> session result" where
  "creation_failed cfg ev s w =
     io_bind (random_choice ev (failed_lines cfg) (emit (ShowStatus ''Creation failed!'') w))
       (\<lambda>failed_phrase w1.
     io_bind (speak cfg ev failed_phrase w1)
       (\<lambda>_ w2. Ok s w2))"

text \<open>Lines 655 to 753: the image was generated.\<close>

definition creation_succeeded ::
  "config \<Rightarrow> env \<Rightarrow> session \<Rightarrow> string \<Rightarrow> string \<Rightarrow> world \<Rightarrow> session result" where
  "creation_succeeded cfg ev s name img_bytes w =
     io_bind (get_best_verse ev (poet s) (critic s) (verse_base_prompt cfg) (msg s) (num_verses cfg) w)
       (\<lambda>(poet', critic', verse) w1.
     io_bind (random_choice ev [''left'', ''right''] w1)
       (\<lambda>img_side w2.
     io_bind (random_choice ev (finished_lines cfg) w2)
       (\<lambda>finished_phrase w3.
     io_bind (if \<not> daydream s then speak cfg ev finished_phrase w3 else Ok () w3)
       (\<lambda>_ w4.
     reschedule cfg ev (s\<lparr>poet := poet', critic := critic'\<rparr>)
       (emit (SaveScreenshot (path_join (output_dir cfg) (name @ ''-verse.png'')))
         (write_file (path_join (output_dir cfg) (name @ ''-verse.png'')) Picture
           (emit (ShowCreation verse img_side)
             (emit (WriteImage (path_join (output_dir cfg) (name @ ''.png'')) img_bytes)
               (write_file (path_join (output_dir cfg) (name @ ''.png'')) (Raw img_bytes)
                 w4)))))))))"

text \<open>Lines 631 to 783: the prompt is known; name the creation, moderate, generate.\<close>

definition create :: "config \<Rightarrow> env \<Rightarrow> session \<Rightarrow> world \<Rightarrow> session result" where
  "create cfg ev s w =
     io_bind (get_random_string ev 12 w)
       (\<lambda>name w1.
     io_bind (check_moderation ev (image_base_prompt cfg @ msg s)
                (emit (WriteText (path_join (output_dir cfg) (name @ ''.txt'')) (msg s))
                  (write_file (path_join (output_dir cfg) (name @ ''.txt'')) (Raw (msg s)) w1)))
       (\<lambda>can_create w2.
          if can_create then
            (case image_create ev (tick (emit (ImageCreate (image_base_prompt cfg @ msg s)) w2)) of
               None \<Rightarrow>
                 creation_failed cfg ev s
                   (advance (emit (ImageCreate (image_base_prompt cfg @ msg s)) w2))
             | Some img_bytes \<Rightarrow>
                 creation_succeeded cfg ev s name img_bytes
                   (advance (emit (ImageCreate (image_base_prompt cfg @ msg s)) w2)))
          else creation_failed cfg ev s w2))"

text \<open>Lines 593 to 629: the prompt, transcribed from the recording or daydreamed.\<close>

definition prompt :: "config \<Rightarrow> env \<Rightarrow> session \<Rightarrow> string \<Rightarrow> world \<Rightarrow> session result" where
  "prompt cfg ev s in_stream w =
     (if \<not> daydream s then
        io_bind (random_choice ev (working_lines cfg) (emit (ShowStatus ''Working...'') w))
          (\<lambda>working_phrase w1.
        io_bind (speak cfg ev working_phrase w1)
          (\<lambda>_ w2.
        io_bind (transcribe ev
                   \<lparr>temp_dir = transcribe_temp_dir cfg, t_channels = 1, t_sample_width = 2,
                    t_framerate = input_sample_rate cfg\<rparr> in_stream w2)
          (\<lambda>text w3. Ok (s\<lparr>msg := text\<rparr>) w3)))
      else
        io_bind (get_chat_response ev (ai_artist s)
                   (if msg s \<noteq> [] then artist_base_prompt cfg @ '' '' @ msg s
                    else artist_base_prompt cfg @ '' something completely random.'')
                   (emit (ShowStatus ''Daydreaming...'') w))
          (\<lambda>(artist', content) w1. Ok (s\<lparr>ai_artist := artist', msg := content\<rparr>) w1))"

text \<open>Lines 592 to 785: the body run once there is something to work on.\<close>

definition work :: "config \<Rightarrow> env \<Rightarrow> session \<Rightarrow> string \<Rightarrow> world \<Rightarrow> session result" where
  "work cfg ev s in_stream w =
     io_bind (prompt cfg ev s in_stream w) (\<lambda>s1 w1. create cfg ev s1 w1)"

text \<open>
  Lines 584 to 787: the loop over \<^verbatim>\<open>silent_loops\<close>. It returns the session together with
  the final value of \<^verbatim>\<open>silent_loops\<close>.
\<close>

function listen ::
  "config \<Rightarrow> env \<Rightarrow> session \<Rightarrow> nat \<Rightarrow> world \<Rightarrow> (session \<times> nat) result" where
  "listen cfg ev s silent_loops w =
     (if silent_loops < 10 then
        (if \<not> daydream s then
           (if snd (microphone ev (tick (emit Record w))) then
              io_bind (work cfg ev s (fst (microphone ev (tick (emit Record w))))
                         (advance (emit Record w)))
                (\<lambda>s1 w1. Ok (s1, silent_loops) w1)
            else listen cfg ev s (Suc silent_loops) (advance (emit Record w)))
         else
           io_bind (work cfg ev s [] w) (\<lambda>s1 w1. Ok (s1, silent_loops) w1))
      else Ok (s, silent_loops) w)"
  by pat_completeness auto
termination
  by (relation "measure (\<lambda>(cfg, ev, s, silent_loops, w). 10 - silent_loops)") auto

declare listen.simps [simp del]

text \<open>Lines 548 to 578: the greeting of a voice cycle.\<close>

definition greet :: "config \<Rightarrow> env \<Rightarrow> world \<Rightarrow> unit result" where
  "greet cfg ev w =
     io_bind (random_choice ev (welcome_words cfg) (emit (ShowStatus '' '') w))
       (\<lambda>word w1.
     io_bind (random_choice ev (welcome_lines cfg) w1)
       (\<lambda>line w2.
     io_bind (speak cfg ev (word @ '' '' @ line) w2)
       (\<lambda>_ w3. Ok () (emit (ShowStatus ''Listening...'') w3))))"

text \<open>
  Lines 539 to 796: what follows the event polling loop within one iteration of the outer
  \<^verbatim>\<open>while True\<close>.
\<close>

definition cycle :: "config \<Rightarrow> env \<Rightarrow> session \<Rightarrow> world \<Rightarrow> outcome" where
  "cycle cfg ev s w =
     (if start_new s \<and> max_consecutive_daydreams cfg < consecutive_daydreams s then
        to_outcome (reschedule cfg ev s w)
      else
        to_outcome
          (io_bind (if start_new s then
                      io_bind (if \<not> daydream s then greet cfg ev w else Ok () w)
                        (\<lambda>_ w1. Ok (s\<lparr>start_new := False\<rparr>) w1)
                    else Ok s w)
             (\<lambda>s1 w1.
           io_bind (listen cfg ev s1 0 w1)
             (\<lambda>(s2, silent_loops) w2.
                if silent_loops = 10 then Ok s2 (emit (ShowStatus ''Ready'') w2) else Ok s2 w2))))"

text \<open>
  Lines 510 to 520: the status that one pass of the polling loop acts on. The event queue is
  polled, then the clock is read, and an expired timer replaces whatever was polled.
\<close>

definition polled :: "config \<Rightarrow> env \<Rightarrow> session \<Rightarrow> world \<Rightarrow> status option" where
  "polled cfg ev s w =
     check_for_event (js s) (js_get_button ev (tick w)) (generate_button cfg) (daydream_button cfg)
       (shutdown_hold_button cfg) (shutdown_press_button cfg) (pygame_event_get ev (tick w))"

definition dispatched :: "config \<Rightarrow> env \<Rightarrow> session \<Rightarrow> world \<Rightarrow> status option" where
  "dispatched cfg ev s w =
     (if next_change_time s \<le> monotonic ev (tick (advance w)) then Some Daydream
      else polled cfg ev s w)"

text \<open>
  One pass of the polling loop (lines 509 to 535) and, when it breaks, the rest of that
  iteration of the outer loop, back to the top of the polling loop.
\<close>

definition step :: "config \<Rightarrow> env \<Rightarrow> session \<Rightarrow> world \<Rightarrow> outcome" where
  "step cfg ev s w =
     (case dispatched cfg ev s w of
        None \<Rightarrow> Running s (advance (advance w))
      | Some Quit \<Rightarrow> Shutdown (emit PygameQuit (advance (advance w)))
      | Some Next \<Rightarrow>
          cycle cfg ev (s\<lparr>start_new := True, daydream := False, consecutive_daydreams := 0\<rparr>)
            (advance (advance w))
      | Some Daydream \<Rightarrow>
          cycle cfg ev
            (s\<lparr>start_new := True, daydream := True,
               consecutive_daydreams := consecutive_daydreams s + 1\<rparr>)
            (advance (advance w)))"

text \<open>The loop run for \<open>n\<close> passes, stopping early at shutdown or at an uncaught exception.\<close>

fun run :: "config \<Rightarrow> env \<Rightarrow> nat \<Rightarrow> outcome \<Rightarrow> outcome" where
  "run cfg ev 0 out = out"
| "run cfg ev (Suc n) (Running s w) = run cfg ev n (step cfg ev s w)"
| "run cfg ev (Suc n) (Shutdown w) = Shutdown w"
| "run cfg ev (Suc n) (Crashed e w) = Crashed e w"

section \<open>Observing a run\<close>

text \<open>
  The actions a stretch of the program appended to the trace, and the classes of actions
  the properties below speak about.
\<close>

definition new_actions :: "world \<Rightarrow> world \<Rightarrow> action list" where
  "new_actions w w' = drop (length (trace w)) (trace w')"

definition adds :: "(action \<Rightarrow> bool) \<Rightarrow> world \<Rightarrow> world \<Rightarrow> bool" where
  "adds P w w' = (\<exists>xs. trace w' = trace w @ xs \<and> list_all P xs)"

fun is_synthesize :: "action \<Rightarrow> bool" where
  "is_synthesize (Synthesize t) = True"
| "is_synthesize a = False"

fun is_play :: "action \<Rightarrow> bool" where
  "is_play (Play t) = True"
| "is_play a = False"


text \<open>Generation-related calls: chat completion, moderation, image generation, transcription.\<close>

fun is_generation :: "action \<Rightarrow> bool" where
  "is_generation (ChatCompletion m) = True"
| "is_generation (Moderation m) = True"
| "is_generation (ImageCreate m) = True"
| "is_generation Transcribe = True"
| "is_generation a = False"


fun is_screenshot :: "action \<Rightarrow> bool" where
  "is_screenshot (SaveScreenshot n) = True"
| "is_screenshot a = False"


text \<open>
  The text file of a creation was written under \<open>name\<close>, twelve lowercase letters, in the
  output directory.
\<close>

fun writes_text_to :: "string \<Rightarrow> action \<Rightarrow> bool" where
  "writes_text_to path (WriteText n t) = (n = path)"
| "writes_text_to path a = False"

definition text_file_written :: "config \<Rightarrow> string \<Rightarrow> action list \<Rightarrow> bool" where
  "text_file_written cfg name xs =
     (length name = 12 \<and> list_all (\<lambda>c. c \<in> set ascii_lowercase) name \<and>
      list_ex (writes_text_to (path_join (output_dir cfg) (name @ ''.txt''))) xs)"

text \<open>
  A stretch of actions in which the prompt \<open>m\<close> was filed and then put to the moderation
  gate: the text file is written under \<open>name\<close>, twelve lowercase letters, in the output
  directory, holding \<open>m\<close>; the very next action is the moderation call on the image
  prompt made from \<open>m\<close>; after that comes at most the image generation call.
\<close>

definition prompt_filed :: "config \<Rightarrow> string \<Rightarrow> string \<Rightarrow> action list \<Rightarrow> bool" where
  "prompt_filed cfg name m xs =
     (length name = 12 \<and> list_all (\<lambda>c. c \<in> set ascii_lowercase) name \<and>
      (\<exists>before after.
         xs = before @ WriteText (path_join (output_dir cfg) (name @ ''.txt'')) m
                # Moderation (image_base_prompt cfg @ m) # after
         \<and> (after = [] \<or> after = [ImageCreate (image_base_prompt cfg @ m)])))"


text \<open>The statuses that the first \<open>n\<close> passes of the loop act on.\<close>

fun dispatches :: "config \<Rightarrow> env \<Rightarrow> nat \<Rightarrow> outcome \<Rightarrow> status option list" where
  "dispatches cfg ev 0 out = []"
| "dispatches cfg ev (Suc n) (Running s w) =
     dispatched cfg ev s w # dispatches cfg ev n (step cfg ev s w)"
| "dispatches cfg ev (Suc n) (Shutdown w) = []"
| "dispatches cfg ev (Suc n) (Crashed e w) = []"

section \<open>Sample inputs\<close>

text \<open>
  Concrete configurations, environments and states on which the theorems below are
  instantiated. \<open>still_env\<close> is an environment in which nothing happens: no event, the
  clock at zero, every service call raises.
\<close>

definition empty_world :: world where
  "empty_world = \<lparr>tick = 0, files = Map.empty, trace = []\<rparr>"

definition still_env :: env where
  "still_env =
     \<lparr>pygame_event_get = (\<lambda>t. []), js_get_button = (\<lambda>t b. False), monotonic = (\<lambda>t. 0),
      entropy = (\<lambda>t. 0), microphone = (\<lambda>t. ([], False)), audio_transcribe = (\<lambda>t. None),
      chat_completion = (\<lambda>t. None), moderation_flagged = (\<lambda>t. None),
      image_create = (\<lambda>t. None), azure_tts = (\<lambda>t. None), sha256_hexdigest = (\<lambda>x. x)\<rparr>"

definition plain_character :: chat_character where
  "plain_character = \<lparr>system_prompt = ''You write.'', messages = [(''system'', ''You write.'')]\<rparr>"

definition sample_config :: config where
  "sample_config =
     \<lparr>speech_cache_dir = ''cache'', transcribe_temp_dir = ''tmp'', output_dir = ''out'',
      speech_language = ''en-US'', speech_gender = ''Female'', speech_voice = ''Jenny'',
      input_sample_rate = 16000, output_sample_rate = 16000,
      generate_button = 0, daydream_button = 1, shutdown_hold_button = 2,
      shutdown_press_button = 3, image_base_prompt = ''Art of '', num_verses = 2,
      min_daydream_time = 1, max_daydream_time = 2, max_consecutive_daydreams = 2,
      artist_base_prompt = ''Imagine'', verse_base_prompt = ''Write a poem about'',
      welcome_words = [''Hello''], welcome_lines = [''What shall I make?''],
      working_lines = [''Working''], finished_lines = [''Done''],
      failed_lines = [''Sorry'']\<rparr>"

definition sample_session :: session where
  "sample_session =
     \<lparr>js = False, start_new = True, daydream = False, consecutive_daydreams = 0, msg = [],
      next_change_time = 100, ai_artist = plain_character, poet = plain_character,
      critic = plain_character\<rparr>"

text \<open>
  An environment whose completion service answers the first calls with the given verses and
  every later call with the given verdict.
\<close>

definition critic_env :: "string list \<Rightarrow> string \<Rightarrow> env" where
  "critic_env vs verdict =
     still_env\<lparr>chat_completion := (\<lambda>t. if t < length vs then Some (vs ! t) else Some verdict)\<rparr>"

text \<open>An environment whose speech service answers every call with five bytes.\<close>

definition speech_env :: env where
  "speech_env = still_env\<lparr>azure_tts := (\<lambda>t. Some ''abcde'')\<rparr>"

text \<open>
  An environment in which every service answers: the microphone hears a voice, the
  completion service always says the same thing, moderation passes, the image arrives.
\<close>

definition lively_env :: env where
  "lively_env =
     still_env\<lparr>microphone := (\<lambda>t. (''pcm'', True)), audio_transcribe := (\<lambda>t. Some ''a frog''),
       chat_completion := (\<lambda>t. Some ''A pond at dawn''), moderation_flagged := (\<lambda>t. Some False),
       image_create := (\<lambda>t. Some ''PNG''), azure_tts := (\<lambda>t. Some ''abcde'')\<rparr>"

text \<open>
  The same with the clock at 200, past the \<open>next_change_time\<close> of \<open>sample_session\<close>; with
  a moderation service that flags everything; and with the escape key in the event queue.
\<close>

definition daydream_env :: env where
  "daydream_env = lively_env\<lparr>monotonic := (\<lambda>t. 200)\<rparr>"

definition flagged_env :: env where
  "flagged_env = daydream_env\<lparr>moderation_flagged := (\<lambda>t. Some True)\<rparr>"

definition escape_env :: env where
  "escape_env = daydream_env\<lparr>pygame_event_get := (\<lambda>t. [KEYDOWN K_ESCAPE])\<rparr>"

text \<open>A session that has already daydreamed more often than \<open>sample_config\<close> allows.\<close>

definition tired_session :: session where
  "tired_session = sample_session\<lparr>consecutive_daydreams := 3\<rparr>"

text \<open>A session whose daydream counter stands exactly at the ceiling of \<open>sample_config\<close>.\<close>

definition weary_session :: session where
  "weary_session = sample_session\<lparr>consecutive_daydreams := 2\<rparr>"

text \<open>An environment with the space key in the event queue and the clock at zero.\<close>

definition space_env :: env where
  "space_env = lively_env\<lparr>pygame_event_get := (\<lambda>t. [KEYDOWN K_SPACE])\<rparr>"

text \<open>The space key again, now with a moderation service that flags everything.\<close>

definition flagged_voice_env :: env where
  "flagged_voice_env = space_env\<lparr>moderation_flagged := (\<lambda>t. Some True)\<rparr>"

section \<open>Auxiliary lemmas\<close>

lemma chosen_poem_skip:
  "\<forall>x\<in>set pre. \<not> isdigit x \<Longrightarrow> chosen_poem (pre @ rest) = chosen_poem rest"
  by (induction pre) auto

lemma chosen_poem_no_digit:
  "\<forall>x\<in>set s. \<not> isdigit x \<Longrightarrow> chosen_poem s = Inr None"
  by (induction s) auto

lemma tick_get_chat_response:
  "tick (world_of (get_chat_response ev c m w)) = Suc (tick w)"
  by (simp add: get_chat_response_def Let_def emit_def advance_def split: option.split)

lemma get_chat_response_Some:
  "chat_completion ev (tick w) = Some v \<Longrightarrow>
   \<exists>c' w'. get_chat_response ev c m w = Ok (c', v) w' \<and> tick w' = Suc (tick w)"
  by (simp add: get_chat_response_def Let_def emit_def advance_def)

lemma poet_verses_replies:
  "\<forall>i<length vs. chat_completion ev (tick w + i) = Some (vs ! i) \<Longrightarrow>
   \<exists>poet' w'. poet_verses ev (length vs) p pc acc w = Ok (poet', acc @ vs) w'
       \<and> tick w' = tick w + length vs"
proof (induction vs arbitrary: pc acc w)
  case Nil
  then show ?case by simp
next
  case (Cons v vs)
  from Cons.prems have "chat_completion ev (tick w) = Some v" by force
  then obtain c1 w1 where r: "get_chat_response ev pc p w = Ok (c1, v) w1"
      and t: "tick w1 = Suc (tick w)"
    using get_chat_response_Some by blast
  have "\<forall>i<length vs. chat_completion ev (tick w1 + i) = Some (vs ! i)"
  proof (intro allI impI)
    fix i assume "i < length vs"
    then have "chat_completion ev (tick w + Suc i) = Some ((v # vs) ! Suc i)"
      using Cons.prems by (metis Suc_less_eq length_Cons)
    then show "chat_completion ev (tick w1 + i) = Some (vs ! i)" by (simp add: t)
  qed
  from Cons.IH[OF this, of c1 "acc @ [v]"] obtain poet' w' where
    "poet_verses ev (length vs) p c1 (acc @ [v]) w1 = Ok (poet', (acc @ [v]) @ vs) w'"
    "tick w' = tick w1 + length vs" by blast
  then show ?case using r t by simp
qed

lemma get_best_verse_replies:
  assumes "n = int (length vs)"
    and "\<forall>i<length vs. chat_completion ev (tick w + i) = Some (vs ! i)"
    and "chat_completion ev (tick w + length vs) = Some verdict"
  shows "\<exists>p c w'. get_best_verse ev pc cc base_prompt user_prompt n w =
           (case chosen_poem verdict of
              Inl e \<Rightarrow> Raise e w'
            | Inr None \<Rightarrow> io_bind (random_choice ev vs w') (\<lambda>verse w4. Ok (p, c, verse) w4)
            | Inr (Some d) \<Rightarrow>
                (case subscript vs (d - 1) of
                   Inl e \<Rightarrow> Raise e w'
                 | Inr verse \<Rightarrow> Ok (p, c, verse) w'))"
proof -
  obtain p w1 where a: "poet_verses ev (length vs) (base_prompt @ '' '' @ user_prompt) (reset pc) [] w = Ok (p, [] @ vs) w1"
     and t: "tick w1 = tick w + length vs"
    using poet_verses_replies[OF assms(2)] by blast
  have "chat_completion ev (tick w1) = Some verdict"
    using assms(3) t by simp
  then obtain c w2 where b: "get_chat_response ev (reset cc) (critic_message user_prompt vs) w1 = Ok (c, verdict) w2"
    using get_chat_response_Some by blast
  have "get_best_verse ev pc cc base_prompt user_prompt n w =
           (case chosen_poem verdict of
              Inl e \<Rightarrow> Raise e w2
            | Inr None \<Rightarrow> io_bind (random_choice ev vs w2) (\<lambda>verse w4. Ok (p, c, verse) w4)
            | Inr (Some d) \<Rightarrow>
                (case subscript vs (d - 1) of
                   Inl e \<Rightarrow> Raise e w2
                 | Inr verse \<Rightarrow> Ok (p, c, verse) w2))"
    unfolding get_best_verse_def using a b assms(1)
    by (simp split: sum.split option.split)
  then show ?thesis by blast
qed

lemma int_of_char_isdigit: "int_of_char c = Inr d \<Longrightarrow> isdigit c"
  by (simp add: int_of_char_def isdigit_def split: if_splits)

lemma speak_text_hit:
  "files w (cache_filename ev cache_dir speech_svc text) = Some f \<Longrightarrow>
   speak_text ev text cache_dir player speech_svc w =
     (case readframes f of Inl e \<Rightarrow> Raise e w | Inr frames \<Rightarrow> Ok () (emit (Play frames) w))"
  by (simp add: speak_text_def Let_def split: sum.split)

lemma speak_text_miss:
  "files w (cache_filename ev cache_dir speech_svc text) = None \<Longrightarrow>
   speak_text ev text cache_dir player speech_svc w =
     (case azure_tts ev (tick w) of
        None \<Rightarrow> Raise ApiError (advance (emit (Synthesize text) w))
      | Some audio_data \<Rightarrow>
          (case wave_write (channels player) (sample_width player) (rate player) audio_data of
             Inl e \<Rightarrow>
               Raise e (write_file (cache_filename ev cache_dir speech_svc text) (Raw [])
                          (advance (emit (Synthesize text) w)))
           | Inr f \<Rightarrow>
               (case readframes f of
                  Inl e \<Rightarrow>
                    Raise e (emit (WriteWave (cache_filename ev cache_dir speech_svc text))
                      (write_file (cache_filename ev cache_dir speech_svc text) f
                        (advance (emit (Synthesize text) w))))
                | Inr frames \<Rightarrow>
                    Ok () (emit (Play frames)
                      (emit (WriteWave (cache_filename ev cache_dir speech_svc text))
                        (write_file (cache_filename ev cache_dir speech_svc text) f
                          (advance (emit (Synthesize text) w))))))))"
  by (simp add: speak_text_def Let_def text_to_speech_def emit_def advance_def write_file_def
      split: sum.split option.split)

lemma adds_refl [simp]: "adds P w w"
  by (simp add: adds_def)

lemma adds_same: "trace w' = trace w \<Longrightarrow> adds P w w'"
  by (simp add: adds_def)

lemma adds_trans: "adds P w w1 \<Longrightarrow> adds P w1 w2 \<Longrightarrow> adds P w w2"
  by (auto simp: adds_def)

lemma adds_emit: "P a \<Longrightarrow> adds P w w1 \<Longrightarrow> adds P w (emit a w1)"
  by (auto simp: adds_def emit_def)

lemma adds_advance [simp]: "adds P w (advance w1) = adds P w w1"
  by (simp add: adds_def advance_def)

lemma adds_write_file [simp]: "adds P w (write_file n f w1) = adds P w w1"
  by (simp add: adds_def write_file_def)



lemma adds_bind:
  assumes "adds P w (world_of m)"
    and "\<And>x w1. m = Ok x w1 \<Longrightarrow> adds P w1 (world_of (f x w1))"
  shows "adds P w (world_of (io_bind m f))"
proof (cases m)
  case (Ok x w1)
  then show ?thesis using assms adds_trans by fastforce
next
  case (Raise e w1)
  then show ?thesis using assms by simp
qed

lemma trace_lift [simp]: "trace (world_of (lift r w)) = trace w"
  by (cases r) auto

lemma world_of_lift [simp]: "world_of (lift r w) = w"
  by (cases r) auto

lemma adds_random_choice [simp]: "adds P w (world_of (random_choice ev xs w1)) = adds P w w1"
  by (simp add: random_choice_def)

lemma adds_random_randint [simp]: "adds P w (world_of (random_randint ev a b w1)) = adds P w w1"
  by (simp add: random_randint_def)

lemma adds_get_chat_response:
  assumes "\<And>m. P (ChatCompletion m)"
  shows "adds P w (world_of (get_chat_response ev c m w))"
  by (auto simp: get_chat_response_def Let_def assms intro!: adds_emit split: option.split)

lemma adds_poet_verses:
  assumes "\<And>m. P (ChatCompletion m)"
  shows "adds P w (world_of (poet_verses ev n p pc vs w))"
proof (induction n arbitrary: pc vs w)
  case 0
  then show ?case by simp
next
  case (Suc n)
  show ?case
    by (auto intro!: adds_bind adds_get_chat_response assms Suc)
qed

lemma adds_get_best_verse:
  assumes "\<And>m. P (ChatCompletion m)"
  shows "adds P w (world_of (get_best_verse ev pc cc base_prompt user_prompt n w))"
  unfolding get_best_verse_def
  by (auto intro!: adds_bind adds_get_chat_response adds_poet_verses assms split: option.split)

lemma adds_speak_text:
  assumes "\<And>t. P (Synthesize t)" "\<And>t. P (Play t)" "\<And>n. P (WriteWave n)"
  shows "adds P w (world_of (speak_text ev text cache_dir player speech_svc w))"
  unfolding speak_text_def Let_def text_to_speech_def
  by (auto intro!: adds_bind adds_emit assms split: option.split sum.split)

lemma adds_speak:
  assumes "\<And>t. P (Synthesize t)" "\<And>t. P (Play t)" "\<And>n. P (WriteWave n)"
  shows "adds P w (world_of (speak cfg ev text w))"
  unfolding speak_def by (rule adds_speak_text; fact)

lemma adds_transcribe:
  assumes "P Transcribe" "\<And>n. P (WriteWave n)"
  shows "adds P w (world_of (transcribe ev tr audio_stream w))"
  unfolding transcribe_def Let_def
  by (auto intro!: adds_emit assms split: option.split sum.split)

lemma adds_check_moderation:
  assumes "\<And>m. P (Moderation m)"
  shows "adds P w (world_of (check_moderation ev m w))"
  unfolding check_moderation_def Let_def
  by (auto intro!: adds_emit assms split: option.split)

lemma trace_get_random_string [simp]:
  "trace (world_of (get_random_string ev n w)) = trace w"
proof (induction n arbitrary: w)
  case 0
  then show ?case by simp
next
  case (Suc n)
  show ?case
  proof (cases "random_choice ev ascii_lowercase w")
    case (Ok c w1)
    then have t: "trace w1 = trace w"
      by (auto simp: random_choice_def advance_def choice_def split: if_splits)
    show ?thesis using Ok Suc[of w1] t
      by (cases "get_random_string ev n w1") auto
  next
    case (Raise e w1)
    then show ?thesis
      by (auto simp: random_choice_def advance_def choice_def split: if_splits)
  qed
qed

lemma trace_reschedule [simp]: "trace (world_of (reschedule cfg ev s w)) = trace w"
  by (simp add: reschedule_def time_monotonic_def random_randint_def randint_def advance_def)

lemma io_bind_cases:
  assumes "io_bind m f = r"
  obtains (raise) e w1 where "m = Raise e w1" "r = Raise e w1"
        | (ok) x w1 where "m = Ok x w1" "r = f x w1"
  using assms by (cases m) auto

lemma io_bind_OkD:
  "io_bind m f = Ok y w' \<Longrightarrow> \<exists>x w1. m = Ok x w1 \<and> f x w1 = Ok y w'"
  by (cases m) auto

lemma adds_creation_failed:
  assumes "\<And>t. P (Synthesize t)" "\<And>t. P (Play t)" "\<And>n. P (WriteWave n)"
  shows "adds P (emit (ShowStatus ''Creation failed!'') w) (world_of (creation_failed cfg ev s w))"
  unfolding creation_failed_def
  by (auto intro!: adds_bind adds_speak assms)

lemma creation_failed_Ok: "creation_failed cfg ev s w = Ok s' w' \<Longrightarrow> s' = s"
  unfolding creation_failed_def
  by (auto dest!: io_bind_OkD)

lemma adds_creation_succeeded:
  assumes "\<And>m. P (ChatCompletion m)" "\<And>n b. P (WriteImage n b)" "\<And>v d. P (ShowCreation v d)"
    "\<And>n. P (SaveScreenshot n)"
    "\<And>t. \<not> daydream s \<Longrightarrow> P (Synthesize t)" "\<And>t. \<not> daydream s \<Longrightarrow> P (Play t)"
    "\<And>n. \<not> daydream s \<Longrightarrow> P (WriteWave n)"
  shows "adds P w (world_of (creation_succeeded cfg ev s name img_bytes w))"
  unfolding creation_succeeded_def
  apply (rule adds_bind)
   apply (rule adds_get_best_verse, rule assms)
  apply (clarsimp)
  apply (rule adds_bind, simp)
  apply (rule adds_bind, simp)
  apply (rule adds_bind)
   apply (auto intro!: adds_speak assms)[1]
  apply (rule adds_trans[OF _ adds_same[OF trace_reschedule]])
  apply (auto intro!: adds_emit assms)
  done


lemma adds_prompt:
  assumes "P (ShowStatus ''Working...'')" "P (ShowStatus ''Daydreaming...'')"
    "\<And>m. P (ChatCompletion m)" "P Transcribe" "\<And>n. P (WriteWave n)"
    "\<And>t. \<not> daydream s \<Longrightarrow> P (Synthesize t)" "\<And>t. \<not> daydream s \<Longrightarrow> P (Play t)"
  shows "adds P w (world_of (prompt cfg ev s in_stream w))"
proof (cases "daydream s")
  case True
  then show ?thesis
    unfolding prompt_def
    by (auto intro!: adds_bind adds_trans[OF _ adds_get_chat_response] adds_emit assms)
next
  case False
  then show ?thesis
    unfolding prompt_def
    apply simp
    apply (rule adds_bind)
     apply (simp add: adds_emit assms)
    apply (rule adds_bind)
     apply (rule adds_speak; simp add: assms)
    apply (rule adds_bind)
     apply (rule adds_transcribe; simp add: assms)
    apply simp
    done
qed

lemma prompt_Ok:
  "prompt cfg ev s in_stream w = Ok s' w' \<Longrightarrow> \<exists>a m. s' = s\<lparr>ai_artist := a, msg := m\<rparr>"
  unfolding prompt_def
  apply (cases "daydream s")
   apply (auto dest!: io_bind_OkD)
  apply (rule exI[of _ "ai_artist s"])
  apply auto
  done

lemma get_random_string_Ok:
  "\<exists>name w1. get_random_string ev n w = Ok name w1 \<and> length name = n
      \<and> list_all (\<lambda>c. c \<in> set ascii_lowercase) name \<and> trace w1 = trace w"
proof (induction n arbitrary: w)
  case 0
  then show ?case by simp
next
  case (Suc n)
  define c where "c = ascii_lowercase ! (entropy ev (tick w) mod length ascii_lowercase)"
  have ne: "ascii_lowercase \<noteq> []" by (simp add: ascii_lowercase_def)
  then have c: "c \<in> set ascii_lowercase" by (simp add: c_def)
  have r: "random_choice ev ascii_lowercase w = Ok c (advance w)"
    using ne by (simp add: random_choice_def choice_def c_def)
  from Suc[of "advance w"] obtain name w1 where
    "get_random_string ev n (advance w) = Ok name w1" "length name = n"
    "list_all (\<lambda>c. c \<in> set ascii_lowercase) name" "trace w1 = trace (advance w)"
    by blast
  then show ?case using r c by (simp add: advance_def)
qed

lemma new_actions_trans:
  "adds P w w1 \<Longrightarrow> adds Q w1 w2 \<Longrightarrow> new_actions w w2 = new_actions w w1 @ new_actions w1 w2"
  by (auto simp: adds_def new_actions_def)

lemma filed_earlier:
  "adds P w w1 \<Longrightarrow> adds Q w1 w2 \<Longrightarrow> prompt_filed cfg name m (new_actions w1 w2)
     \<Longrightarrow> prompt_filed cfg name m (new_actions w w2)"
proof -
  assume a: "adds P w w1" "adds Q w1 w2" and f: "prompt_filed cfg name m (new_actions w1 w2)"
  obtain before after where x: "new_actions w1 w2 =
      before @ WriteText (path_join (output_dir cfg) (name @ ''.txt'')) m
        # Moderation (image_base_prompt cfg @ m) # after"
      "after = [] \<or> after = [ImageCreate (image_base_prompt cfg @ m)]"
    using f by (auto simp: prompt_filed_def)
  have "new_actions w w2 = (new_actions w w1 @ before)
      @ WriteText (path_join (output_dir cfg) (name @ ''.txt'')) m
        # Moderation (image_base_prompt cfg @ m) # after"
    using new_actions_trans[OF a] x(1) by simp
  then show ?thesis using f x(2) unfolding prompt_filed_def by blast
qed

lemma prompt_filed_written:
  "prompt_filed cfg name m xs \<Longrightarrow> text_file_written cfg name xs"
  by (auto simp: prompt_filed_def text_file_written_def)

lemma create_cases:
  assumes P: "\<And>n t. P (WriteText n t)" "\<And>m. P (Moderation m)" "\<And>m. P (ImageCreate m)"
  obtains (failed) name w1 where "adds P w w1"
        "prompt_filed cfg name (msg s) (new_actions w w1)"
        "create cfg ev s w = creation_failed cfg ev s w1"
    | (succeeded) name img_bytes w1 where "adds P w w1"
        "prompt_filed cfg name (msg s) (new_actions w w1)"
        "create cfg ev s w = creation_succeeded cfg ev s name img_bytes w1"
    | (crashed) e w1 where "adds P w w1" "create cfg ev s w = Raise e w1"
proof -
  obtain name w1 where Ok: "get_random_string ev 12 w = Ok name w1"
    and name: "length name = 12" "list_all (\<lambda>c. c \<in> set ascii_lowercase) name"
    and tr: "trace w1 = trace w"
    using get_random_string_Ok[of ev 12 w] by blast
  define w1' where "w1' = emit (WriteText (path_join (output_dir cfg) (name @ ''.txt'')) (msg s))
                  (write_file (path_join (output_dir cfg) (name @ ''.txt'')) (Raw (msg s)) w1)"
  have tr1: "trace w1' = trace w @ [WriteText (path_join (output_dir cfg) (name @ ''.txt'')) (msg s)]"
    unfolding w1'_def using tr by (simp add: emit_def write_file_def)
  have t1': "adds P w w1'"
    using tr1 by (simp add: adds_def P)
  have m: "adds P w1' (world_of (check_moderation ev (image_base_prompt cfg @ msg s) w1'))"
    by (rule adds_check_moderation, rule P)
  have mt: "trace (world_of (check_moderation ev (image_base_prompt cfg @ msg s) w1'))
      = trace w1' @ [Moderation (image_base_prompt cfg @ msg s)]"
    by (simp add: check_moderation_def Let_def emit_def advance_def split: option.split)
  show ?thesis
  proof (cases "check_moderation ev (image_base_prompt cfg @ msg s) w1'")
    case (Raise e w2)
    then have "create cfg ev s w = Raise e w2"
      using Ok by (simp add: create_def w1'_def)
    moreover have "adds P w w2" using t1' m Raise adds_trans by fastforce
    ultimately show ?thesis using crashed by blast
  next
    case ok2: (Ok can_create w2)
    have m2: "adds P w1' w2" using m ok2 by simp
    have t2: "adds P w w2" using t1' m2 by (rule adds_trans)
    have tr2: "trace w2 = trace w @ [WriteText (path_join (output_dir cfg) (name @ ''.txt'')) (msg s),
        Moderation (image_base_prompt cfg @ msg s)]"
      using mt ok2 tr1 by simp
    have "new_actions w w2 = [] @ WriteText (path_join (output_dir cfg) (name @ ''.txt'')) (msg s)
        # Moderation (image_base_prompt cfg @ msg s) # []"
      using tr2 by (simp add: new_actions_def)
    then have x2: "prompt_filed cfg name (msg s) (new_actions w w2)"
      unfolding prompt_filed_def using name by blast
    show ?thesis
    proof (cases can_create)
      case False
      then have "create cfg ev s w = creation_failed cfg ev s w2"
        using Ok ok2 by (simp add: create_def w1'_def)
      with t2 x2 show ?thesis by (rule failed)
    next
      case True
      define w3 where "w3 = advance (emit (ImageCreate (image_base_prompt cfg @ msg s)) w2)"
      have m3: "adds P w2 w3"
        unfolding w3_def by (auto intro!: adds_emit P)
      have t3: "adds P w w3" using t2 m3 by (rule adds_trans)
      have tr3: "trace w3 = trace w @ [WriteText (path_join (output_dir cfg) (name @ ''.txt'')) (msg s),
          Moderation (image_base_prompt cfg @ msg s),
          ImageCreate (image_base_prompt cfg @ msg s)]"
        unfolding w3_def using tr2 by (simp add: emit_def advance_def)
      have "new_actions w w3 = [] @ WriteText (path_join (output_dir cfg) (name @ ''.txt'')) (msg s)
          # Moderation (image_base_prompt cfg @ msg s)
          # [ImageCreate (image_base_prompt cfg @ msg s)]"
        using tr3 by (simp add: new_actions_def)
      then have x3: "prompt_filed cfg name (msg s) (new_actions w w3)"
        unfolding prompt_filed_def using name by blast
      show ?thesis
      proof (cases "image_create ev (tick (emit (ImageCreate (image_base_prompt cfg @ msg s)) w2))")
        case None
        then have "create cfg ev s w = creation_failed cfg ev s w3"
          using Ok ok2 True by (simp add: create_def w1'_def w3_def)
        with t3 x3 show ?thesis by (rule failed)
      next
        case (Some img_bytes)
        then have "create cfg ev s w = creation_succeeded cfg ev s name img_bytes w3"
          using Ok ok2 True by (simp add: create_def w1'_def w3_def)
        with t3 x3 show ?thesis by (rule succeeded)
      qed
    qed
  qed
qed

text \<open>The three ways in which the body of a cycle ends.\<close>

lemma work_cases:
  assumes P: "\<And>n t. P (WriteText n t)" "\<And>m. P (Moderation m)" "\<And>m. P (ImageCreate m)"
    "P (ShowStatus ''Working...'')" "P (ShowStatus ''Daydreaming...'')"
    "\<And>m. P (ChatCompletion m)" "P Transcribe" "\<And>n. P (WriteWave n)"
    "\<And>t. \<not> daydream s \<Longrightarrow> P (Synthesize t)" "\<And>t. \<not> daydream s \<Longrightarrow> P (Play t)"
  obtains (failed) a m name w1 where "adds P w w1"
        "prompt_filed cfg name m (new_actions w w1)"
        "work cfg ev s in_stream w = creation_failed cfg ev (s\<lparr>ai_artist := a, msg := m\<rparr>) w1"
    | (succeeded) a m name img_bytes w1 where "adds P w w1"
        "prompt_filed cfg name m (new_actions w w1)"
        "work cfg ev s in_stream w =
           creation_succeeded cfg ev (s\<lparr>ai_artist := a, msg := m\<rparr>) name img_bytes w1"
    | (crashed) e w1 where "adds P w w1" "work cfg ev s in_stream w = Raise e w1"
proof (cases "prompt cfg ev s in_stream w")
  case (Raise e w1)
  have "adds P w (world_of (prompt cfg ev s in_stream w))"
    by (rule adds_prompt; simp add: P)
  then have "adds P w w1" using Raise by simp
  moreover have "work cfg ev s in_stream w = Raise e w1"
    using Raise by (simp add: work_def)
  ultimately show ?thesis using crashed by blast
next
  case (Ok s1 w1)
  have "adds P w (world_of (prompt cfg ev s in_stream w))"
    by (rule adds_prompt; simp add: P)
  then have t1: "adds P w w1" using Ok by simp
  obtain a m where s1: "s1 = s\<lparr>ai_artist := a, msg := m\<rparr>"
    using prompt_Ok[OF Ok] by blast
  have w: "work cfg ev s in_stream w = create cfg ev s1 w1"
    using Ok by (simp add: work_def)
  show ?thesis
  proof (rule create_cases[where P=P and w=w1 and cfg=cfg and ev=ev and s=s1])
    fix name w2
    assume h: "adds P w1 w2" "prompt_filed cfg name (msg s1) (new_actions w1 w2)"
      "create cfg ev s1 w1 = creation_failed cfg ev s1 w2"
    have "adds P w w2" using t1 h(1) by (rule adds_trans)
    moreover have "prompt_filed cfg name m (new_actions w w2)"
      using filed_earlier[OF t1 h(1,2)] s1 by simp
    moreover have "work cfg ev s in_stream w
        = creation_failed cfg ev (s\<lparr>ai_artist := a, msg := m\<rparr>) w2"
      using h(3) w s1 by simp
    ultimately show thesis by (rule failed)
  next
    fix name img_bytes w2
    assume h: "adds P w1 w2" "prompt_filed cfg name (msg s1) (new_actions w1 w2)"
      "create cfg ev s1 w1 = creation_succeeded cfg ev s1 name img_bytes w2"
    have "adds P w w2" using t1 h(1) by (rule adds_trans)
    moreover have "prompt_filed cfg name m (new_actions w w2)"
      using filed_earlier[OF t1 h(1,2)] s1 by simp
    moreover have "work cfg ev s in_stream w
        = creation_succeeded cfg ev (s\<lparr>ai_artist := a, msg := m\<rparr>) name img_bytes w2"
      using h(3) w s1 by simp
    ultimately show thesis by (rule succeeded)
  next
    fix e w2 assume h: "adds P w1 w2" "create cfg ev s1 w1 = Raise e w2"
    have "adds P w w2" using t1 h(1) by (rule adds_trans)
    moreover have "work cfg ev s in_stream w = Raise e w2"
      using h(2) w by simp
    ultimately show thesis by (rule crashed)
  qed (rule P)+
qed

lemma listen_cases_aux:
  assumes P: "P Record"
  shows "(\<exists>w1. adds P w w1 \<and> listen cfg ev s n w = Ok (s, max n 10) w1) \<or>
         (\<exists>in_stream k w1. adds P w w1 \<and> k < 10 \<and>
            listen cfg ev s n w = io_bind (work cfg ev s in_stream w1) (\<lambda>s1 w2. Ok (s1, k) w2))"
proof (induction cfg ev s n w rule: listen.induct)
  case (1 cfg ev s silent_loops w)
  show ?case
  proof (cases "silent_loops < 10")
    case False
    then have "listen cfg ev s silent_loops w = Ok (s, max silent_loops 10) w"
      by (simp add: listen.simps max_def)
    then show ?thesis by (metis adds_refl)
  next
    case lt: True
    show ?thesis
    proof (cases "daydream s")
      case True
      then have "listen cfg ev s silent_loops w =
          io_bind (work cfg ev s [] w) (\<lambda>s1 w2. Ok (s1, silent_loops) w2)"
        using lt by (simp add: listen.simps)
      then show ?thesis using lt by (metis adds_refl)
    next
      case nd: False
      have r: "adds P w (advance (emit Record w))"
        by (simp add: adds_emit P)
      show ?thesis
      proof (cases "snd (microphone ev (tick (emit Record w)))")
        case True
        then have "listen cfg ev s silent_loops w =
            io_bind (work cfg ev s (fst (microphone ev (tick (emit Record w))))
                       (advance (emit Record w)))
              (\<lambda>s1 w2. Ok (s1, silent_loops) w2)"
          using lt nd by (simp add: listen.simps)
        then show ?thesis using lt r by blast
      next
        case False
        then have e: "listen cfg ev s silent_loops w =
            listen cfg ev s (Suc silent_loops) (advance (emit Record w))"
          using lt nd by (subst listen.simps) simp
        have m: "max (Suc silent_loops) 10 = max silent_loops 10"
          using lt by simp
        from "1.IH"[OF lt nd False] show ?thesis
          unfolding e m using r adds_trans by blast
      qed
    qed
  qed
qed

lemma listen_cases:
  assumes P: "P Record"
  obtains (silent) w1 where "adds P w w1" "listen cfg ev s 0 w = Ok (s, 10) w1"
    | (worked) in_stream k w1 where "adds P w w1" "k < 10"
        "listen cfg ev s 0 w = io_bind (work cfg ev s in_stream w1) (\<lambda>s1 w2. Ok (s1, k) w2)"
  using listen_cases_aux[of P w cfg ev s 0] P by auto

lemma adds_greet:
  assumes "P (ShowStatus '' '')" "P (ShowStatus ''Listening...'')"
    "\<And>t. P (Synthesize t)" "\<And>t. P (Play t)" "\<And>n. P (WriteWave n)"
  shows "adds P w (world_of (greet cfg ev w))"
  unfolding greet_def
  apply (rule adds_bind, simp add: adds_emit assms)
  apply (rule adds_bind, simp)
  apply (rule adds_bind)
   apply (rule adds_speak; simp add: assms)
  apply (simp add: adds_emit assms)
  done

lemma start_new_False_idem: "\<not> start_new s \<Longrightarrow> s\<lparr>start_new := False\<rparr> = s"
  by (cases s) simp

lemma worked_through:
  "k < 10 \<Longrightarrow>
   io_bind (io_bind m (\<lambda>s1 w2. Ok (s1, k) w2))
     (\<lambda>(s2, silent_loops) w2.
        if silent_loops = (10::nat) then Ok s2 (emit (ShowStatus ''Ready'') w2) else Ok s2 w2) = m"
  by (cases m) auto

lemma cycle_cases:
  assumes P: "P Record" "P (ShowStatus ''Ready'')"
    "\<And>n t. P (WriteText n t)" "\<And>m. P (Moderation m)" "\<And>m. P (ImageCreate m)"
    "P (ShowStatus ''Working...'')" "P (ShowStatus ''Daydreaming...'')"
    "\<And>m. P (ChatCompletion m)" "P Transcribe" "\<And>n. P (WriteWave n)"
    "\<not> daydream s \<Longrightarrow> P (ShowStatus '' '')" "\<not> daydream s \<Longrightarrow> P (ShowStatus ''Listening...'')"
    "\<And>t. \<not> daydream s \<Longrightarrow> P (Synthesize t)" "\<And>t. \<not> daydream s \<Longrightarrow> P (Play t)"
  obtains (skipped) "start_new s" "max_consecutive_daydreams cfg < consecutive_daydreams s"
        "cycle cfg ev s w = to_outcome (reschedule cfg ev s w)"
    | (silent) w1 where "adds P w w1" "cycle cfg ev s w = Running (s\<lparr>start_new := False\<rparr>) w1"
    | (failed) a m name w1 where "adds P w w1"
        "prompt_filed cfg name m (new_actions w w1)"
        "cycle cfg ev s w =
           to_outcome (creation_failed cfg ev (s\<lparr>start_new := False, ai_artist := a, msg := m\<rparr>) w1)"
    | (succeeded) a m name img_bytes w1 where "adds P w w1"
        "prompt_filed cfg name m (new_actions w w1)"
        "cycle cfg ev s w =
           to_outcome (creation_succeeded cfg ev
             (s\<lparr>start_new := False, ai_artist := a, msg := m\<rparr>) name img_bytes w1)"
    | (crashed) e w1 where "adds P w w1" "cycle cfg ev s w = Crashed e w1"
proof (cases "start_new s \<and> max_consecutive_daydreams cfg < consecutive_daydreams s")
  case True
  then show ?thesis using skipped by (simp add: cycle_def)
next
  case False
  define s0 where "s0 = s\<lparr>start_new := False\<rparr>"
  define pre where "pre = (if start_new s then
                      io_bind (if \<not> daydream s then greet cfg ev w else Ok () w)
                        (\<lambda>_ w1. Ok (s\<lparr>start_new := False\<rparr>) w1)
                    else Ok s w)"
  have c: "cycle cfg ev s w = to_outcome (io_bind pre (\<lambda>s1 w1.
           io_bind (listen cfg ev s1 0 w1)
             (\<lambda>(s2, silent_loops) w2.
                if silent_loops = 10 then Ok s2 (emit (ShowStatus ''Ready'') w2) else Ok s2 w2)))"
    by (simp only: cycle_def pre_def False if_False)
  have g: "\<not> daydream s \<Longrightarrow> adds P w (world_of (greet cfg ev w))"
    by (rule adds_greet; simp add: P)
  have pre_adds: "adds P w (world_of pre)"
    unfolding pre_def by (auto intro!: adds_bind g)
  have pre_ok: "pre = Ok s1 w1 \<Longrightarrow> s1 = s0" for s1 w1
    unfolding pre_def s0_def
    by (auto dest!: io_bind_OkD simp: start_new_False_idem split: if_splits)
  show ?thesis
  proof (cases pre)
    case (Raise e w1)
    then have "cycle cfg ev s w = Crashed e w1" using c by simp
    moreover have "adds P w w1" using pre_adds Raise by simp
    ultimately show ?thesis by (rule crashed[rotated])
  next
    case (Ok s1 w1)
    then have s1: "s1 = s0" by (rule pre_ok)
    have t1: "adds P w w1" using pre_adds Ok by simp
    have c1: "cycle cfg ev s w = to_outcome (io_bind (listen cfg ev s0 0 w1)
             (\<lambda>(s2, silent_loops) w2.
                if silent_loops = 10 then Ok s2 (emit (ShowStatus ''Ready'') w2) else Ok s2 w2))"
      using c Ok s1 by simp
    show ?thesis
    proof (rule listen_cases[of P w1 cfg ev s0])
      show "P Record" by (rule P)
    next
      fix w2 assume h: "adds P w1 w2" "listen cfg ev s0 0 w1 = Ok (s0, 10) w2"
      have "cycle cfg ev s w = Running (s\<lparr>start_new := False\<rparr>) (emit (ShowStatus ''Ready'') w2)"
        using c1 h(2) by (simp add: s0_def)
      moreover have "adds P w (emit (ShowStatus ''Ready'') w2)"
        using t1 h(1) by (auto intro!: adds_emit P intro: adds_trans)
      ultimately show thesis by (rule silent[rotated])
    next
      fix in_stream k w2
      assume h: "adds P w1 w2" "k < 10"
        "listen cfg ev s0 0 w1 = io_bind (work cfg ev s0 in_stream w2) (\<lambda>s1 w2. Ok (s1, k) w2)"
      have t2: "adds P w w2" using t1 h(1) by (rule adds_trans)
      have c2: "cycle cfg ev s w = to_outcome (work cfg ev s0 in_stream w2)"
        by (simp only: c1 h(3) worked_through[OF h(2)])
      have d: "daydream s0 = daydream s" by (simp add: s0_def)
      show thesis
      proof (rule work_cases[of P s0 w2 cfg ev in_stream])
        fix a m name w3
        assume k: "adds P w2 w3" "prompt_filed cfg name m (new_actions w2 w3)"
          "work cfg ev s0 in_stream w2 = creation_failed cfg ev (s0\<lparr>ai_artist := a, msg := m\<rparr>) w3"
        have "adds P w w3" using t2 k(1) by (rule adds_trans)
        moreover have "prompt_filed cfg name m (new_actions w w3)"
          using t2 k(1,2) by (rule filed_earlier)
        moreover have "cycle cfg ev s w = to_outcome (creation_failed cfg ev
              (s\<lparr>start_new := False, ai_artist := a, msg := m\<rparr>) w3)"
          using c2 k(3) by (simp add: s0_def)
        ultimately show thesis by (rule failed)
      next
        fix a m name img_bytes w3
        assume k: "adds P w2 w3" "prompt_filed cfg name m (new_actions w2 w3)"
          "work cfg ev s0 in_stream w2 =
             creation_succeeded cfg ev (s0\<lparr>ai_artist := a, msg := m\<rparr>) name img_bytes w3"
        have "adds P w w3" using t2 k(1) by (rule adds_trans)
        moreover have "prompt_filed cfg name m (new_actions w w3)"
          using t2 k(1,2) by (rule filed_earlier)
        moreover have "cycle cfg ev s w = to_outcome (creation_succeeded cfg ev
              (s\<lparr>start_new := False, ai_artist := a, msg := m\<rparr>) name img_bytes w3)"
          using c2 k(3) by (simp add: s0_def)
        ultimately show thesis by (rule succeeded)
      next
        fix e w3
        assume k: "adds P w2 w3" "work cfg ev s0 in_stream w2 = Raise e w3"
        have "adds P w w3" using t2 k(1) by (rule adds_trans)
        moreover have "cycle cfg ev s w = Crashed e w3"
          using c2 k(2) by simp
        ultimately show thesis by (rule crashed)
      qed (simp_all add: P d)
    qed
  qed
qed

lemma randint_bounds:
  "a \<le> b \<Longrightarrow> \<exists>r. randint a b k = Inr r \<and> a \<le> r \<and> r \<le> b"
proof -
  assume ab: "a \<le> b"
  have "k mod nat (b - a + 1) < nat (b - a + 1)"
    using ab by (intro mod_less_divisor) simp
  then have "int (k mod nat (b - a + 1)) \<le> b - a"
    using ab by linarith
  then show ?thesis using ab by (simp add: randint_def)
qed

lemma reschedule_Ok:
  "reschedule cfg ev s w = Ok s' w' \<Longrightarrow> \<exists>t. s' = s\<lparr>next_change_time := t\<rparr>"
  unfolding reschedule_def time_monotonic_def
  by (auto dest!: io_bind_OkD)

lemma reschedule_in_window:
  assumes "min_daydream_time cfg \<le> max_daydream_time cfg"
  shows "\<exists>r w'. reschedule cfg ev s w =
            Ok (s\<lparr>next_change_time := monotonic ev (tick w) + real_of_int r\<rparr>) w'
          \<and> min_daydream_time cfg * 60 \<le> r \<and> r \<le> max_daydream_time cfg * 60
          \<and> trace w' = trace w"
proof -
  have "min_daydream_time cfg * 60 \<le> max_daydream_time cfg * 60"
    using assms by simp
  from randint_bounds[OF this, of "entropy ev (Suc (tick w))"]
  obtain r where r: "randint (min_daydream_time cfg * 60) (max_daydream_time cfg * 60)
        (entropy ev (Suc (tick w))) = Inr r"
    "min_daydream_time cfg * 60 \<le> r" "r \<le> max_daydream_time cfg * 60"
    by blast
  show ?thesis
    unfolding reschedule_def time_monotonic_def random_randint_def
    using r by (auto simp: advance_def)
qed


text \<open>
  At or above the ceiling, a pass of the loop that does not act on Next leaves no trace: the
  counter that line 540 tests is the one the pass has already incremented.
\<close>

lemma over_ceiling_step:
  assumes "max_consecutive_daydreams cfg < consecutive_daydreams s + 1"
    and "dispatched cfg ev s w \<noteq> Some Next"
  shows "case step cfg ev s w of
           Running s' w' \<Rightarrow>
             max_consecutive_daydreams cfg < consecutive_daydreams s' + 1 \<and> trace w' = trace w
         | Shutdown w' \<Rightarrow> trace w' = trace w @ [PygameQuit]
         | Crashed e w' \<Rightarrow> trace w' = trace w"
proof (cases "dispatched cfg ev s w")
  case None
  then show ?thesis using assms by (simp add: step_def advance_def)
next
  case (Some st)
  show ?thesis
  proof (cases st)
    case Quit
    then show ?thesis using Some by (simp add: step_def advance_def emit_def)
  next
    case Next
    then show ?thesis using Some assms by simp
  next
    case Daydream
    define s1 where "s1 = s\<lparr>start_new := True, daydream := True,
                        consecutive_daydreams := consecutive_daydreams s + 1\<rparr>"
    have st: "step cfg ev s w = to_outcome (reschedule cfg ev s1 (advance (advance w)))"
      using Some Daydream assms(1) by (simp add: step_def cycle_def s1_def)
    have tr: "trace (world_of (reschedule cfg ev s1 (advance (advance w)))) = trace w"
      by (simp add: advance_def)
    show ?thesis
    proof (cases "reschedule cfg ev s1 (advance (advance w))")
      case (Ok s' w')
      then obtain t where "s' = s1\<lparr>next_change_time := t\<rparr>"
        using reschedule_Ok by blast
      then show ?thesis using st Ok tr assms(1) by (simp add: s1_def)
    next
      case (Raise e w')
      then show ?thesis using st tr by simp
    qed
  qed
qed

lemma over_ceiling_run:
  assumes "Some Next \<notin> set (dispatches cfg ev n out)"
    and "case out of
           Running s' w' \<Rightarrow>
             max_consecutive_daydreams cfg < consecutive_daydreams s' + 1 \<and> trace w' = trace w
         | Shutdown w' \<Rightarrow> trace w' = trace w \<or> trace w' = trace w @ [PygameQuit]
         | Crashed e w' \<Rightarrow> trace w' = trace w"
  shows "trace (outcome_world (run cfg ev n out)) = trace w \<or>
         trace (outcome_world (run cfg ev n out)) = trace w @ [PygameQuit]"
  using assms
proof (induction n arbitrary: out)
  case 0
  then show ?case by (cases out) auto
next
  case (Suc n)
  show ?case
  proof (cases out)
    case (Running s1 w1)
    have inv: "max_consecutive_daydreams cfg < consecutive_daydreams s1 + 1" "trace w1 = trace w"
      using Suc.prems(2) Running by auto
    have nn: "dispatched cfg ev s1 w1 \<noteq> Some Next"
      "Some Next \<notin> set (dispatches cfg ev n (step cfg ev s1 w1))"
      using Suc.prems(1) Running by auto
    have "case step cfg ev s1 w1 of
           Running s' w' \<Rightarrow>
             max_consecutive_daydreams cfg < consecutive_daydreams s' + 1 \<and> trace w' = trace w
         | Shutdown w' \<Rightarrow> trace w' = trace w \<or> trace w' = trace w @ [PygameQuit]
         | Crashed e w' \<Rightarrow> trace w' = trace w"
      using over_ceiling_step[OF inv(1) nn(1)] inv(2)
      by (cases "step cfg ev s1 w1") auto
    from Suc.IH[OF nn(2) this] show ?thesis using Running by simp
  next
    case (Shutdown w1)
    then show ?thesis using Suc.prems(2) by auto
  next
    case (Crashed e w1)
    then show ?thesis using Suc.prems(2) by auto
  qed
qed

section \<open>Evaluating the model on sample inputs\<close>

lemma io_bind_weak_cong: "m = m' \<Longrightarrow> io_bind m f = io_bind m' f"
  by simp

lemmas model_defs = step_def dispatched_def polled_def cycle_def listen.simps work_def prompt_def
  create_def creation_failed_def creation_succeeded_def reschedule_def greet_def speak_def
  speak_text_def cache_filename_def path_join_def text_to_speech_def wave_write_def
  transcribe_def check_moderation_def get_best_verse_def get_chat_response_def reset_def
  critic_message_def random_choice_def random_randint_def time_monotonic_def choice_def
  randint_def emit_def advance_def write_file_def Let_def isdigit_def isdecimal_def
  int_of_char_def subscript_def ascii_lowercase_def

lemmas sample_defs = weary_session_def daydream_env_def flagged_env_def flagged_voice_env_def escape_env_def space_env_def
  tired_session_def critic_env_def speech_env_def lively_env_def still_env_def sample_config_def sample_session_def
  plain_character_def empty_world_def

lemma get_random_string_numeral:
  "get_random_string ev (numeral k) w =
     io_bind (random_choice ev ascii_lowercase w)
       (\<lambda>c w1. io_bind (get_random_string ev (pred_numeral k) w1) (\<lambda>cs w2. Ok (c # cs) w2))"
  by (simp add: numeral_eq_Suc)

lemma poet_verses_numeral:
  "poet_verses ev (numeral k) p pc vs w =
     io_bind (get_chat_response ev pc p w)
       (\<lambda>(pc', verse) w'. poet_verses ev (pred_numeral k) p pc' (vs @ [verse]) w')"
  by (simp add: numeral_eq_Suc)

lemmas eval_simps = model_defs sample_defs get_random_string_numeral poet_verses_numeral

lemma failed_daydream_step:
  "step sample_config flagged_env sample_session empty_world =
     Running
       (sample_session\<lparr>start_new := False, daydream := True, consecutive_daydreams := 1,
          msg := ''A pond at dawn'',
          ai_artist := \<lparr>system_prompt = ''You write.'',
             messages = [(''system'', ''You write.''),
                         (''user'', ''Imagine something completely random.''),
                         (''assistant'', ''A pond at dawn'')]\<rparr>\<rparr>)
       \<lparr>tick = 18,
        files = [''out/aaaaaaaaaaaa.txt'' \<mapsto> Raw ''A pond at dawn'',
                 ''cache/en-USFemaleJennySorry.wav'' \<mapsto> Wave 1 2 16000 ''abcde''],
        trace = [ShowStatus ''Daydreaming...'',
                 ChatCompletion [(''system'', ''You write.''),
                                 (''user'', ''Imagine something completely random.'')],
                 WriteText ''out/aaaaaaaaaaaa.txt'' ''A pond at dawn'',
                 Moderation ''Art of A pond at dawn'',
                 ShowStatus ''Creation failed!'',
                 Synthesize ''Sorry'',
                 WriteWave ''cache/en-USFemaleJennySorry.wav'',
                 Play ''abcd'']\<rparr>"
  by (simp add: eval_simps cong: io_bind_weak_cong)

lemma outcome_world_to_outcome [simp]: "outcome_world (to_outcome r) = world_of r"
  by (cases r) auto

lemma running_to_outcome [simp]: "running (to_outcome r) = returned r"
  by (cases r) auto

lemma adds_from_advance [simp]: "adds P (advance w) w1 = adds P w w1"
  by (simp add: adds_def advance_def)

lemma new_actions_same: "trace w' = trace w \<Longrightarrow> new_actions w w' = []"
  by (simp add: new_actions_def)

lemma new_actions_append: "trace w' = trace w @ xs \<Longrightarrow> new_actions w w' = xs"
  by (simp add: new_actions_def)

text \<open>
  The ways in which one pass of the loop ends. \<open>P\<close> holds of every action taken before the
  cycle reaches its end: the failure branch, the success branch, or an exception.
\<close>

lemma step_cases:
  assumes P: "P Record" "P (ShowStatus ''Ready'')"
    "\<And>n t. P (WriteText n t)" "\<And>m. P (Moderation m)" "\<And>m. P (ImageCreate m)"
    "P (ShowStatus ''Working...'')" "P (ShowStatus ''Daydreaming...'')"
    "\<And>m. P (ChatCompletion m)" "P Transcribe" "\<And>n. P (WriteWave n)"
    "dispatched cfg ev s w \<noteq> Some Daydream \<Longrightarrow> P (ShowStatus '' '')"
    "dispatched cfg ev s w \<noteq> Some Daydream \<Longrightarrow> P (ShowStatus ''Listening...'')"
    "\<And>t. dispatched cfg ev s w \<noteq> Some Daydream \<Longrightarrow> P (Synthesize t)"
    "\<And>t. dispatched cfg ev s w \<noteq> Some Daydream \<Longrightarrow> P (Play t)"
  obtains (idle) "step cfg ev s w = Running s (advance (advance w))"
    | (quit) "step cfg ev s w = Shutdown (emit PygameQuit (advance (advance w)))"
    | (skipped) s1 where
        "step cfg ev s w = to_outcome (reschedule cfg ev s1 (advance (advance w)))"
    | (silent) s1 w1 where "adds P w w1" "next_change_time s1 = next_change_time s"
        "step cfg ev s w = Running s1 w1"
    | (failed) s1 name w1 where "adds P w w1"
        "prompt_filed cfg name (msg s1) (new_actions w w1)"
        "next_change_time s1 = next_change_time s"
        "daydream s1 = (dispatched cfg ev s w = Some Daydream)"
        "step cfg ev s w = to_outcome (creation_failed cfg ev s1 w1)"
    | (succeeded) s1 name img_bytes w1 where "adds P w w1"
        "prompt_filed cfg name (msg s1) (new_actions w w1)"
        "daydream s1 = (dispatched cfg ev s w = Some Daydream)"
        "step cfg ev s w = to_outcome (creation_succeeded cfg ev s1 name img_bytes w1)"
    | (crashed) e w1 where "adds P w w1" "step cfg ev s w = Crashed e w1"
proof (cases "dispatched cfg ev s w")
  case None
  then show ?thesis using idle by (simp add: step_def)
next
  case (Some st)
  show ?thesis
  proof (cases "st = Quit")
    case True
    then show ?thesis using Some quit by (simp add: step_def)
  next
    case False
    define s0 where "s0 = (if st = Daydream
        then s\<lparr>start_new := True, daydream := True,
               consecutive_daydreams := consecutive_daydreams s + 1\<rparr>
        else s\<lparr>start_new := True, daydream := False, consecutive_daydreams := 0\<rparr>)"
    define w0 where "w0 = advance (advance w)"
    have st: "step cfg ev s w = cycle cfg ev s0 w0"
      using Some False by (cases st) (simp_all add: step_def s0_def w0_def)
    have d: "daydream s0 = (dispatched cfg ev s w = Some Daydream)"
      using Some by (simp add: s0_def)
    have n: "next_change_time s0 = next_change_time s"
      by (simp add: s0_def)
    have w0: "adds P w w0" "trace w0 = trace w"
      by (simp_all add: w0_def adds_def advance_def)
    have na: "new_actions w0 w1 = new_actions w w1" for w1
      by (simp add: new_actions_def w0(2))
    show ?thesis
    proof (rule cycle_cases[of P s0 cfg ev w0])
      assume "cycle cfg ev s0 w0 = to_outcome (reschedule cfg ev s0 w0)"
      then show thesis using st skipped by (simp add: w0_def)
    next
      fix w1
      assume h: "adds P w0 w1" "cycle cfg ev s0 w0 = Running (s0\<lparr>start_new := False\<rparr>) w1"
      have "adds P w w1" using w0(1) h(1) by (rule adds_trans)
      moreover have "next_change_time (s0\<lparr>start_new := False\<rparr>) = next_change_time s"
        using n by simp
      moreover have "step cfg ev s w = Running (s0\<lparr>start_new := False\<rparr>) w1"
        using st h(2) by simp
      ultimately show thesis by (rule silent)
    next
      fix a m name w1
      assume h: "adds P w0 w1" "prompt_filed cfg name m (new_actions w0 w1)"
        "cycle cfg ev s0 w0 =
           to_outcome (creation_failed cfg ev
             (s0\<lparr>start_new := False, ai_artist := a, msg := m\<rparr>) w1)"
      define s1 where "s1 = s0\<lparr>start_new := False, ai_artist := a, msg := m\<rparr>"
      have "adds P w w1" using w0(1) h(1) by (rule adds_trans)
      moreover have "prompt_filed cfg name (msg s1) (new_actions w w1)"
        using h(2) by (simp add: na s1_def)
      moreover have "next_change_time s1 = next_change_time s"
        using n by (simp add: s1_def)
      moreover have "daydream s1 = (dispatched cfg ev s w = Some Daydream)"
        using d by (simp add: s1_def)
      moreover have "step cfg ev s w = to_outcome (creation_failed cfg ev s1 w1)"
        using st h(3) by (simp add: s1_def)
      ultimately show thesis by (rule failed)
    next
      fix a m name img_bytes w1
      assume h: "adds P w0 w1" "prompt_filed cfg name m (new_actions w0 w1)"
        "cycle cfg ev s0 w0 =
           to_outcome (creation_succeeded cfg ev
             (s0\<lparr>start_new := False, ai_artist := a, msg := m\<rparr>) name img_bytes w1)"
      define s1 where "s1 = s0\<lparr>start_new := False, ai_artist := a, msg := m\<rparr>"
      have "adds P w w1" using w0(1) h(1) by (rule adds_trans)
      moreover have "prompt_filed cfg name (msg s1) (new_actions w w1)"
        using h(2) by (simp add: na s1_def)
      moreover have "daydream s1 = (dispatched cfg ev s w = Some Daydream)"
        using d by (simp add: s1_def)
      moreover have "step cfg ev s w
          = to_outcome (creation_succeeded cfg ev s1 name img_bytes w1)"
        using st h(3) by (simp add: s1_def)
      ultimately show thesis by (rule succeeded)
    next
      fix e w1
      assume h: "adds P w0 w1" "cycle cfg ev s0 w0 = Crashed e w1"
      have "adds P w w1" using w0(1) h(1) by (rule adds_trans)
      moreover have "step cfg ev s w = Crashed e w1" using st h(2) by simp
      ultimately show thesis by (rule crashed)
    qed (use P d in simp_all)
  qed
qed

lemma speak_text_raised_last:
  assumes "raised (speak_text ev text cache_dir player speech_svc w) \<noteq> None"
  shows "trace (world_of (speak_text ev text cache_dir player speech_svc w)) = trace w \<or>
         (\<exists>xs a. trace (world_of (speak_text ev text cache_dir player speech_svc w)) = xs @ [a]
            \<and> \<not> is_play a)"
proof (cases "files w (cache_filename ev cache_dir speech_svc text)")
  case None
  show ?thesis
    using assms unfolding speak_text_miss[OF None]
    by (auto simp: emit_def advance_def write_file_def split: option.splits sum.splits)
next
  case (Some f)
  show ?thesis
    using assms unfolding speak_text_hit[OF Some]
    by (auto simp: emit_def split: sum.splits)
qed

lemma creation_failed_raised_last:
  assumes "raised (creation_failed cfg ev s w) \<noteq> None"
  shows "\<not> is_play (last (trace (world_of (creation_failed cfg ev s w))))"
proof (cases "random_choice ev (failed_lines cfg) (emit (ShowStatus ''Creation failed!'') w)")
  case (Raise e w1)
  then have "trace w1 = trace w @ [ShowStatus ''Creation failed!'']"
    by (auto simp: random_choice_def choice_def emit_def advance_def split: if_splits)
  then show ?thesis using Raise by (simp add: creation_failed_def)
next
  case (Ok phrase w1)
  then have t1: "trace w1 = trace w @ [ShowStatus ''Creation failed!'']"
    by (auto simp: random_choice_def choice_def emit_def advance_def split: if_splits)
  have c: "creation_failed cfg ev s w
      = io_bind (speak cfg ev phrase w1) (\<lambda>_ w2. Ok s w2)"
    using Ok by (simp add: creation_failed_def)
  have r: "raised (speak cfg ev phrase w1) \<noteq> None"
    using assms c by (cases "speak cfg ev phrase w1") auto
  then have w: "world_of (creation_failed cfg ev s w) = world_of (speak cfg ev phrase w1)"
    using c by (cases "speak cfg ev phrase w1") auto
  from speak_text_raised_last[OF r[unfolded speak_def]]
  show ?thesis unfolding w speak_def using t1 by auto
qed


lemma marker_not_added:
  "adds (\<lambda>a. a \<noteq> x) w w' \<Longrightarrow> x \<notin> set (new_actions w w')"
  by (auto simp: adds_def new_actions_def list_all_iff)


lemma chosen_poem_first:
  assumes "\<forall>x\<in>set pre. \<not> isdigit x" "int_of_char c = Inr d"
  shows "chosen_poem (pre @ c # post) = Inr (Some d)"
  using assms by (simp add: chosen_poem_skip int_of_char_isdigit)

lemma creation_succeeded_trace:
  "adds (\<lambda>a. \<not> is_screenshot a) w (world_of (creation_succeeded cfg ev s name img_bytes w)) \<or>
   (\<exists>xs verse img_side.
      trace (world_of (creation_succeeded cfg ev s name img_bytes w)) =
        trace w @ xs @
          [WriteImage (path_join (output_dir cfg) (name @ ''.png'')) img_bytes,
           ShowCreation verse img_side,
           SaveScreenshot (path_join (output_dir cfg) (name @ ''-verse.png''))]
      \<and> list_all (\<lambda>a. \<not> is_screenshot a) xs)"
proof -
  let ?N = "\<lambda>a. \<not> is_screenshot a"
  define r1 where
    "r1 = get_best_verse ev (poet s) (critic s) (verse_base_prompt cfg) (msg s) (num_verses cfg) w"
  have a1: "adds ?N w (world_of r1)"
    unfolding r1_def by (rule adds_get_best_verse) simp
  show ?thesis
  proof (cases r1)
    case (Raise e w1)
    then have "creation_succeeded cfg ev s name img_bytes w = Raise e w1"
      by (simp add: creation_succeeded_def r1_def[symmetric])
    then show ?thesis using a1 Raise by simp
  next
    case (Ok x w1)
    obtain p c verse where x: "x = (p, c, verse)" by (cases x) auto
    have b1: "adds ?N w w1" using a1 Ok by simp
    define r2 where "r2 = random_choice ev [''left'', ''right''] w1"
    obtain img_side w2 where r2: "r2 = Ok img_side w2" "trace w2 = trace w1"
      by (simp add: r2_def random_choice_def choice_def advance_def)
    define r3 where "r3 = random_choice ev (finished_lines cfg) w2"
    have b2: "adds ?N w w2" using b1 r2(2) by (simp add: adds_def)
    have a3: "adds ?N w (world_of r3)"
      unfolding r3_def using b2 by simp
    define fin where "fin = (\<lambda>(u::unit) w4.
     reschedule cfg ev (s\<lparr>poet := p, critic := c\<rparr>)
       (emit (SaveScreenshot (path_join (output_dir cfg) (name @ ''-verse.png'')))
         (write_file (path_join (output_dir cfg) (name @ ''-verse.png'')) Picture
           (emit (ShowCreation verse img_side)
             (emit (WriteImage (path_join (output_dir cfg) (name @ ''.png'')) img_bytes)
               (write_file (path_join (output_dir cfg) (name @ ''.png'')) (Raw img_bytes)
                 w4))))))"
    have cs: "creation_succeeded cfg ev s name img_bytes w =
        io_bind r3 (\<lambda>finished_phrase w3.
          io_bind (if \<not> daydream s then speak cfg ev finished_phrase w3 else Ok () w3) fin)"
      using Ok x r2(1)
      by (simp add: creation_succeeded_def r1_def[symmetric] r2_def[symmetric] r3_def fin_def)
    show ?thesis
    proof (cases r3)
      case (Raise e w3)
      then show ?thesis using cs a3 by simp
    next
      case ok3: (Ok finished_phrase w3)
      have b3: "adds ?N w w3" using a3 ok3 by simp
      define r4 where
        "r4 = (if \<not> daydream s then speak cfg ev finished_phrase w3 else Ok () w3)"
      have "adds ?N w3 (world_of r4)"
        unfolding r4_def by (auto intro!: adds_speak)
      then have a4: "adds ?N w (world_of r4)" using b3 adds_trans by blast
      show ?thesis
      proof (cases r4)
        case (Raise e w4)
        then have "creation_succeeded cfg ev s name img_bytes w = Raise e w4"
          using cs ok3 by (simp add: r4_def)
        then show ?thesis using a4 Raise by simp
      next
        case ok4: (Ok u w4)
        then obtain xs where xs: "trace w4 = trace w @ xs" "list_all ?N xs"
          using a4 by (auto simp: adds_def)
        have "creation_succeeded cfg ev s name img_bytes w = io_bind r4 fin"
          using cs ok3 by (simp add: r4_def)
        then have "creation_succeeded cfg ev s name img_bytes w = fin u w4"
          using ok4 by simp
        then have "trace (world_of (creation_succeeded cfg ev s name img_bytes w)) =
            trace w @ xs @
              [WriteImage (path_join (output_dir cfg) (name @ ''.png'')) img_bytes,
               ShowCreation verse img_side,
               SaveScreenshot (path_join (output_dir cfg) (name @ ''-verse.png''))]"
          using xs(1) by (simp add: fin_def emit_def write_file_def)
        then show ?thesis using xs(2) by blast
      qed
    qed
  qed
qed


lemma no_screenshot_added:
  "adds (\<lambda>a. \<not> is_screenshot a) w w' \<Longrightarrow> \<not> list_ex is_screenshot (new_actions w w')"
  by (auto simp: adds_def new_actions_def list_all_iff list_ex_iff)

section \<open>The speech cache\<close>

text \<open>
  Claim C2. For every language, gender, voice and text, two successive calls of
  \<^verbatim>\<open>speak_text\<close> issue at most one speech synthesis call between them, and when both calls
  return, each has played once and the two playbacks are of the same bytes. This holds from
  any state of the cache directory and whatever the speech service answers.
\<close>

theorem speak_text_twice:
  "length (filter is_synthesize
      (new_actions w (world_of (io_bind (speak_text ev text cache_dir player speech_svc w)
          (\<lambda>_. speak_text ev text cache_dir player speech_svc))))) \<le> 1
   \<and> (returned (io_bind (speak_text ev text cache_dir player speech_svc w)
          (\<lambda>_. speak_text ev text cache_dir player speech_svc)) = Some ()
      \<longrightarrow> (\<exists>frames.
            filter is_play
              (new_actions w (world_of (io_bind (speak_text ev text cache_dir player speech_svc w)
                 (\<lambda>_. speak_text ev text cache_dir player speech_svc))))
            = [Play frames, Play frames]))"
proof (cases "files w (cache_filename ev cache_dir speech_svc text)")
  case None
  show ?thesis
    by (simp add: speak_text_miss[OF None] speak_text_hit new_actions_def emit_def advance_def write_file_def
        split: option.split sum.split)
next
  case (Some f)
  show ?thesis
    by (simp add: speak_text_hit[OF Some] speak_text_hit Some new_actions_def emit_def 
        split: sum.split)
qed

theorem speak_text_twice_witness:
  "length (filter is_synthesize
      (new_actions empty_world (world_of (io_bind
          (speak_text speech_env ''Hello'' ''cache''
             \<lparr>sample_width = 2, channels = 1, rate = 16000\<rparr>
             \<lparr>language = ''en-US'', gender = ''Female'', voice = ''Jenny''\<rparr> empty_world)
          (\<lambda>_. speak_text speech_env ''Hello'' ''cache''
             \<lparr>sample_width = 2, channels = 1, rate = 16000\<rparr>
             \<lparr>language = ''en-US'', gender = ''Female'', voice = ''Jenny''\<rparr>))))) = 1
   \<and> filter is_play
      (new_actions empty_world (world_of (io_bind
          (speak_text speech_env ''Hello'' ''cache''
             \<lparr>sample_width = 2, channels = 1, rate = 16000\<rparr>
             \<lparr>language = ''en-US'', gender = ''Female'', voice = ''Jenny''\<rparr> empty_world)
          (\<lambda>_. speak_text speech_env ''Hello'' ''cache''
             \<lparr>sample_width = 2, channels = 1, rate = 16000\<rparr>
             \<lparr>language = ''en-US'', gender = ''Female'', voice = ''Jenny''\<rparr>))))
     = [Play ''abcd'', Play ''abcd'']"
  using speak_text_twice[of empty_world speech_env "''Hello''" "''cache''"
      "\<lparr>sample_width = 2, channels = 1, rate = 16000\<rparr>"
      "\<lparr>language = ''en-US'', gender = ''Female'', voice = ''Jenny''\<rparr>"]
  by (simp add: speak_text_def cache_filename_def path_join_def text_to_speech_def
      wave_write_def speech_env_def still_env_def empty_world_def emit_def advance_def
      write_file_def new_actions_def Let_def)

section \<open>Choosing the verse\<close>

text \<open>
  Claim C10. \<^verbatim>\<open>get_best_verse\<close> is not total on verdicts whose first digit is out of
  range: whenever the poet returned the verses, the critic's verdict has a first digit \<open>d\<close>
  (no character before it passes \<^verbatim>\<open>isdigit\<close>) and \<open>d\<close> is larger than the number of
  verses, the lookup \<^verbatim>\<open>verses[d - 1]\<close> raises \<^verbatim>\<open>IndexError\<close>; there is no fallback to
  a random verse. The instance below is such a list and verdict.
\<close>

theorem get_best_verse_index_error:
  assumes "n = int (length verses)"
    and "\<forall>i<length verses. chat_completion ev (tick w + i) = Some (verses ! i)"
    and "chat_completion ev (tick w + length verses) = Some (pre @ c # post)"
    and "\<forall>x\<in>set pre. \<not> isdigit x"
    and "int_of_char c = Inr d"
    and "int (length verses) < d"
  shows "raised (get_best_verse ev pc cc base_prompt user_prompt n w)
           = Some IndexError"
proof -
  have "chosen_poem (pre @ c # post) = Inr (Some d)"
    using assms(4,5) by (simp add: chosen_poem_skip int_of_char_isdigit)
  moreover have "subscript verses (d - 1) = Inl IndexError"
    using assms(6) by (simp add: subscript_def)
  ultimately show ?thesis
    using get_best_verse_replies[OF assms(1,2,3), of pc cc base_prompt user_prompt]
    by auto
qed

theorem get_best_verse_index_error_witness:
  "raised (get_best_verse (critic_env [''rose'', ''tulip''] ''Poem 9'') plain_character
      plain_character ''Write a poem about'' ''spring'' 2 empty_world) = Some IndexError"
  using get_best_verse_index_error[of 2 "[''rose'', ''tulip'']"
      "critic_env [''rose'', ''tulip''] ''Poem 9''" empty_world "''Poem ''" "CHR ''9''" "[]" 9
      plain_character plain_character "''Write a poem about''" "''spring''"]
  by (simp add: critic_env_def still_env_def empty_world_def isdigit_def isdecimal_def
      int_of_char_def less_Suc_eq numeral_2_eq_2)

text \<open>
  Claim C3. The claim is that whenever the first decimal digit \<open>d\<close> of the verdict
  satisfies \<open>1 \<le> d \<le> n\<close>, candidate \<open>d - 1\<close> is returned. The scan tests characters with
  \<^verbatim>\<open>isdigit\<close>, which also holds for the superscript digits, and hands the first hit to
  \<^verbatim>\<open>int\<close>, which rejects them: with two candidates and the verdict made of a superscript
  two followed by the digit 2, the call raises \<^verbatim>\<open>ValueError\<close> instead of returning the
  second candidate.
\<close>

theorem superscript_digit_raises:
  "raised (get_best_verse (critic_env [''rose'', ''tulip''] [CHR 0xB2, CHR ''2''])
      plain_character plain_character ''Write a poem about'' ''spring'' 2 empty_world)
     = Some ValueError"
  by (simp add: eval_simps cong: io_bind_weak_cong)

text \<open>
  Claim C4. The claim is that a verdict without any decimal digit never makes the call fail
  and yields one of the candidates. The verdict that consists of a superscript two has no
  decimal digit, yet the call raises \<^verbatim>\<open>ValueError\<close>: the fallback to a random candidate
  is reached only when no character passes \<^verbatim>\<open>isdigit\<close>.
\<close>

theorem superscript_only_raises:
  "chosen_poem [CHR 0xB2] = Inl ValueError
   \<and> list_all (\<lambda>c. \<not> isdecimal c) [CHR 0xB2]
   \<and> raised (get_best_verse (critic_env [''rose'', ''tulip''] [CHR 0xB2])
      plain_character plain_character ''Write a poem about'' ''spring'' 2 empty_world)
     = Some ValueError"
  by (simp add: eval_simps cong: io_bind_weak_cong)

text \<open>
  What holds of the selection. When no character before the first decimal digit \<open>d\<close> of
  the verdict passes \<^verbatim>\<open>isdigit\<close> and \<open>1 \<le> d \<le> n\<close>, the call returns exactly candidate
  \<open>d - 1\<close> (counting from zero).
\<close>

theorem get_best_verse_chosen:
  assumes "n = int (length verses)"
    and "\<forall>i<length verses. chat_completion ev (tick w + i) = Some (verses ! i)"
    and "chat_completion ev (tick w + length verses) = Some (pre @ c # post)"
    and "\<forall>x\<in>set pre. \<not> isdigit x"
    and "int_of_char c = Inr d"
    and "1 \<le> d" and "d \<le> int (length verses)"
  shows "map_option (\<lambda>(p', c', verse). verse)
           (returned (get_best_verse ev pc cc base_prompt user_prompt n w))
         = Some (verses ! nat (d - 1))"
proof -
  have "chosen_poem (pre @ c # post) = Inr (Some d)"
    using assms(4,5) by (rule chosen_poem_first)
  moreover have "subscript verses (d - 1) = Inr (verses ! nat (d - 1))"
    using assms(6,7) by (simp add: subscript_def)
  ultimately show ?thesis
    using get_best_verse_replies[OF assms(1,2,3), of pc cc base_prompt user_prompt]
    by auto
qed

theorem get_best_verse_chosen_witness:
  "map_option (\<lambda>(p', c', verse). verse)
     (returned (get_best_verse (critic_env [''rose'', ''tulip''] ''I choose 2 because'')
        plain_character plain_character ''Write a poem about'' ''spring'' 2 empty_world))
   = Some ''tulip''"
  using get_best_verse_chosen[of 2 "[''rose'', ''tulip'']"
      "critic_env [''rose'', ''tulip''] ''I choose 2 because''" empty_world "''I choose ''"
      "CHR ''2''" "'' because''" 2 plain_character plain_character
      "''Write a poem about''" "''spring''"]
  by (simp add: critic_env_def still_env_def empty_world_def isdigit_def isdecimal_def
      int_of_char_def less_Suc_eq numeral_2_eq_2)

text \<open>
  When no character of the verdict passes \<^verbatim>\<open>isdigit\<close> and there is at least one
  candidate, the call returns one of the candidates.
\<close>

theorem get_best_verse_fallback:
  assumes "n = int (length verses)"
    and "\<forall>i<length verses. chat_completion ev (tick w + i) = Some (verses ! i)"
    and "chat_completion ev (tick w + length verses) = Some verdict"
    and "\<forall>x\<in>set verdict. \<not> isdigit x"
    and "verses \<noteq> []"
  shows "\<exists>verse\<in>set verses.
           map_option (\<lambda>(p', c', verse). verse)
             (returned (get_best_verse ev pc cc base_prompt user_prompt n w))
           = Some verse"
proof -
  have n: "chosen_poem verdict = Inr None"
    using assms(4) by (rule chosen_poem_no_digit)
  obtain p c w' where g: "get_best_verse ev pc cc base_prompt user_prompt n w =
        (case chosen_poem verdict of Inl e \<Rightarrow> Raise e w'
         | Inr None \<Rightarrow>
             io_bind (random_choice ev verses w') (\<lambda>verse w4. Ok (p, c, verse) w4)
         | Inr (Some d) \<Rightarrow>
             (case subscript verses (d - 1) of Inl e \<Rightarrow> Raise e w'
              | Inr verse \<Rightarrow> Ok (p, c, verse) w'))"
    using get_best_verse_replies[OF assms(1,2,3), of pc cc base_prompt user_prompt] by blast
  define verse where "verse = verses ! (entropy ev (tick w') mod length verses)"
  have "verse \<in> set verses"
    using assms(5) by (simp add: verse_def)
  moreover have "random_choice ev verses w' = Ok verse (advance w')"
    using assms(5) by (simp add: random_choice_def choice_def verse_def)
  then have "map_option (\<lambda>(p', c', verse). verse)
             (returned (get_best_verse ev pc cc base_prompt user_prompt n w)) = Some verse"
    using g n by simp
  ultimately show ?thesis by blast
qed

theorem get_best_verse_fallback_witness:
  "map_option (\<lambda>(p', c', verse). verse)
     (returned (get_best_verse (critic_env [''rose'', ''tulip''] ''Both are fine.'')
        plain_character plain_character ''Write a poem about'' ''spring'' 2 empty_world))
   = Some ''rose''"
  using get_best_verse_fallback[of 2 "[''rose'', ''tulip'']"
      "critic_env [''rose'', ''tulip''] ''Both are fine.''" empty_world "''Both are fine.''"
      plain_character plain_character "''Write a poem about''" "''spring''"]
  by (simp add: eval_simps less_Suc_eq numeral_2_eq_2 cong: io_bind_weak_cong)

text \<open>
  A verdict whose first digit is 0 selects \<^verbatim>\<open>verses[-1]\<close>: the last candidate.
\<close>

theorem get_best_verse_zero:
  assumes "n = int (length verses)"
    and "\<forall>i<length verses. chat_completion ev (tick w + i) = Some (verses ! i)"
    and "chat_completion ev (tick w + length verses) = Some (pre @ c # post)"
    and "\<forall>x\<in>set pre. \<not> isdigit x"
    and "int_of_char c = Inr 0"
    and "verses \<noteq> []"
  shows "map_option (\<lambda>(p', c', verse). verse)
           (returned (get_best_verse ev pc cc base_prompt user_prompt n w))
         = Some (last verses)"
proof -
  have "chosen_poem (pre @ c # post) = Inr (Some 0)"
    using assms(4,5) by (rule chosen_poem_first)
  moreover have "nat (int (length verses) - 1) = length verses - 1"
    by simp
  then have "subscript verses (0 - 1) = Inr (last verses)"
    using assms(6) by (simp add: subscript_def last_conv_nth)
  ultimately show ?thesis
    using get_best_verse_replies[OF assms(1,2,3), of pc cc base_prompt user_prompt]
    by auto
qed

theorem get_best_verse_zero_witness:
  "map_option (\<lambda>(p', c', verse). verse)
     (returned (get_best_verse (critic_env [''rose'', ''tulip''] ''Poem 0'')
        plain_character plain_character ''Write a poem about'' ''spring'' 2 empty_world))
   = Some ''tulip''"
  using get_best_verse_zero[of 2 "[''rose'', ''tulip'']"
      "critic_env [''rose'', ''tulip''] ''Poem 0''" empty_world "''Poem ''"
      "CHR ''0''" "[]" plain_character plain_character
      "''Write a poem about''" "''spring''"]
  by (simp add: critic_env_def still_env_def empty_world_def isdigit_def isdecimal_def
      int_of_char_def less_Suc_eq numeral_2_eq_2)

section \<open>The daydream throttle\<close>



text \<open>
  Claim C5. Line 540 tests the counter that the pass has just incremented, so the ceiling is
  breached by the trigger that finds \<^verbatim>\<open>consecutive_daydreams\<close> equal to
  \<^verbatim>\<open>max_consecutive_daydreams\<close> at event polling, and stays breached above it. From any
  such state (the counter at or above the ceiling when polled), however many passes of the
  loop follow, as long as none of them acts on Next no chat completion, moderation, image
  generation or transcription call is made. A pass that acts on Daydream there, the
  breaching one included, only redraws \<^verbatim>\<open>next_change_time\<close>, to the clock reading plus a
  number of seconds within the configured window, and is back at event polling without
  having done anything else (the window must not be empty, or \<^verbatim>\<open>random.randint\<close> raises).
\<close>

theorem daydream_limit:
  assumes "max_consecutive_daydreams cfg < consecutive_daydreams s + 1"
  shows "(Some Next \<notin> set (dispatches cfg ev n (Running s w)) \<longrightarrow>
            list_all (\<lambda>a. \<not> is_generation a)
              (new_actions w (outcome_world (run cfg ev n (Running s w)))))
       \<and> (dispatched cfg ev s w = Some Daydream \<longrightarrow>
            min_daydream_time cfg \<le> max_daydream_time cfg \<longrightarrow>
            (\<exists>r s' w'. step cfg ev s w = Running s' w'
               \<and> next_change_time s' = monotonic ev (tick w + 2) + real_of_int r
               \<and> min_daydream_time cfg * 60 \<le> r \<and> r \<le> max_daydream_time cfg * 60
               \<and> consecutive_daydreams s' = consecutive_daydreams s + 1
               \<and> new_actions w w' = []))"
proof (intro conjI impI)
  assume "Some Next \<notin> set (dispatches cfg ev n (Running s w))"
  from over_ceiling_run[OF this, of w] assms
  have "trace (outcome_world (run cfg ev n (Running s w))) = trace w \<or>
        trace (outcome_world (run cfg ev n (Running s w))) = trace w @ [PygameQuit]"
    by simp
  then show "list_all (\<lambda>a. \<not> is_generation a)
              (new_actions w (outcome_world (run cfg ev n (Running s w))))"
    by (auto simp: new_actions_def)
next
  assume d: "dispatched cfg ev s w = Some Daydream"
    and m: "min_daydream_time cfg \<le> max_daydream_time cfg"
  define s1 where "s1 = s\<lparr>start_new := True, daydream := True,
                        consecutive_daydreams := consecutive_daydreams s + 1\<rparr>"
  have st: "step cfg ev s w = to_outcome (reschedule cfg ev s1 (advance (advance w)))"
    using d assms by (simp add: step_def cycle_def s1_def)
  from reschedule_in_window[OF m, of ev s1 "advance (advance w)"]
  obtain r w' where r: "reschedule cfg ev s1 (advance (advance w)) =
            Ok (s1\<lparr>next_change_time := monotonic ev (tick (advance (advance w))) + real_of_int r\<rparr>) w'"
     "min_daydream_time cfg * 60 \<le> r" "r \<le> max_daydream_time cfg * 60"
     "trace w' = trace (advance (advance w))"
    by blast
  show "\<exists>r s' w'. step cfg ev s w = Running s' w'
               \<and> next_change_time s' = monotonic ev (tick w + 2) + real_of_int r
               \<and> min_daydream_time cfg * 60 \<le> r \<and> r \<le> max_daydream_time cfg * 60
               \<and> consecutive_daydreams s' = consecutive_daydreams s + 1
               \<and> new_actions w w' = []"
    apply (rule exI[of _ r])
    using st r by (simp add: s1_def advance_def new_actions_def)
qed

theorem daydream_limit_witness:
  "consecutive_daydreams weary_session = max_consecutive_daydreams sample_config
   \<and> dispatches sample_config daydream_env (Suc (Suc 0)) (Running weary_session empty_world)
       = [Some Daydream, None]
   \<and> list_all (\<lambda>a. \<not> is_generation a)
     (new_actions empty_world
        (outcome_world (run sample_config daydream_env (Suc (Suc 0))
           (Running weary_session empty_world))))
   \<and> (\<exists>r s' w'. step sample_config daydream_env weary_session empty_world = Running s' w'
         \<and> next_change_time s' = monotonic daydream_env (tick empty_world + 2) + real_of_int r
         \<and> min_daydream_time sample_config * 60 \<le> r
         \<and> r \<le> max_daydream_time sample_config * 60
         \<and> consecutive_daydreams s' = consecutive_daydreams weary_session + 1
         \<and> new_actions empty_world w' = [])"
  using daydream_limit[of sample_config weary_session daydream_env "Suc (Suc 0)" empty_world]
  by (simp add: eval_simps cong: io_bind_weak_cong)

section \<open>Quit\<close>

text \<open>
  Claim C7. The claim is that a polled Quit always ends the loop, also when the daydream
  timer has expired. In the code the expired timer overwrites the polled status before it is
  looked at: with the escape key in the queue and the clock past \<^verbatim>\<open>next_change_time\<close>,
  \<^verbatim>\<open>check_for_event\<close> returns Quit, the pass acts on Daydream, runs a whole daydream cycle
  with its service calls, and the loop goes on.
\<close>

theorem quit_lost_to_timer:
  "polled sample_config escape_env sample_session empty_world = Some Quit
   \<and> dispatched sample_config escape_env sample_session empty_world = Some Daydream
   \<and> map_option consecutive_daydreams
         (running (step sample_config escape_env sample_session empty_world)) = Some 1
   \<and> filter is_generation
         (trace (outcome_world (step sample_config escape_env sample_session empty_world)))
       \<noteq> []"
  by (simp add: eval_simps cong: io_bind_weak_cong)

text \<open>
  What holds of Quit: when the timer has not expired at the clock reading of the pass, a
  polled Quit ends the loop.
\<close>

theorem quit_ends_loop:
  assumes "polled cfg ev s w = Some Quit"
    and "monotonic ev (Suc (tick w)) < next_change_time s"
  shows "step cfg ev s w = Shutdown (emit PygameQuit (advance (advance w)))"
  using assms by (simp add: step_def dispatched_def advance_def)

theorem quit_ends_loop_witness:
  "step sample_config (escape_env\<lparr>monotonic := (\<lambda>t. 0)\<rparr>) sample_session empty_world
     = Shutdown (emit PygameQuit (advance (advance empty_world)))"
  using quit_ends_loop[of sample_config "escape_env\<lparr>monotonic := (\<lambda>t. 0)\<rparr>" sample_session
      empty_world]
  by (simp add: polled_def sample_defs)

section \<open>Cycles that fail\<close>

text \<open>
  A cycle fails when the moderation gate refuses the prompt or image generation raises; both
  branches show the status \<^verbatim>\<open>Creation failed!\<close>, which nothing else shows, so a pass of the
  loop contains a failed cycle exactly when that status is among its new actions.

  Claim C1, as amended. A failed cycle leaves \<^verbatim>\<open>next_change_time\<close> as it was, whether the
  cycle was a voice cycle or a daydream cycle; it never ends the loop; and once the failure
  phrase has been played the loop is back at event polling (choosing or speaking the phrase
  can raise, which ends the program).
\<close>

theorem failed_cycle_keeps_timer:
  assumes "ShowStatus ''Creation failed!''
             \<in> set (new_actions w (outcome_world (step cfg ev s w)))"
  shows "(\<forall>s'. running (step cfg ev s w) = Some s' \<longrightarrow>
            next_change_time s' = next_change_time s)
       \<and> (\<forall>w'. step cfg ev s w \<noteq> Shutdown w')
       \<and> (is_play (last (trace (outcome_world (step cfg ev s w)))) \<longrightarrow>
            running (step cfg ev s w) \<noteq> None)"
proof (rule step_cases[of "\<lambda>a. a \<noteq> ShowStatus ''Creation failed!''" cfg ev s w])
  assume "step cfg ev s w = Running s (advance (advance w))"
  then show ?thesis using assms by (simp add: new_actions_def advance_def)
next
  assume "step cfg ev s w = Shutdown (emit PygameQuit (advance (advance w)))"
  then show ?thesis using assms by (simp add: new_actions_def advance_def emit_def)
next
  fix s1 assume "step cfg ev s w = to_outcome (reschedule cfg ev s1 (advance (advance w)))"
  then show ?thesis using assms by (simp add: new_actions_def advance_def)
next
  fix s1 w1
  assume "adds (\<lambda>a. a \<noteq> ShowStatus ''Creation failed!'') w w1"
    "step cfg ev s w = Running s1 w1"
  then show ?thesis using assms marker_not_added by fastforce
next
  fix s1 name img_bytes w1
  assume h: "adds (\<lambda>a. a \<noteq> ShowStatus ''Creation failed!'') w w1"
    "step cfg ev s w = to_outcome (creation_succeeded cfg ev s1 name img_bytes w1)"
  have "adds (\<lambda>a. a \<noteq> ShowStatus ''Creation failed!'') w1
          (world_of (creation_succeeded cfg ev s1 name img_bytes w1))"
    by (rule adds_creation_succeeded) simp_all
  then have "adds (\<lambda>a. a \<noteq> ShowStatus ''Creation failed!'') w
          (outcome_world (step cfg ev s w))"
    using h adds_trans by fastforce
  then show ?thesis using assms marker_not_added by blast
next
  fix e w1
  assume "adds (\<lambda>a. a \<noteq> ShowStatus ''Creation failed!'') w w1"
    "step cfg ev s w = Crashed e w1"
  then show ?thesis using assms marker_not_added by fastforce
next
  fix s1 name w1
  assume h: "next_change_time s1 = next_change_time s"
    "step cfg ev s w = to_outcome (creation_failed cfg ev s1 w1)"
  show ?thesis
  proof (cases "creation_failed cfg ev s1 w1")
    case (Ok s' w')
    then have "s' = s1" by (rule creation_failed_Ok)
    then show ?thesis using h Ok by simp
  next
    case (Raise e w')
    then have "\<not> is_play (last (trace (world_of (creation_failed cfg ev s1 w1))))"
      using creation_failed_raised_last[of cfg ev s1 w1] by simp
    then show ?thesis using h Raise by simp
  qed
qed simp_all

theorem failed_cycle_keeps_timer_witness:
  "ShowStatus ''Creation failed!''
     \<in> set (new_actions empty_world
              (outcome_world (step sample_config flagged_voice_env sample_session empty_world)))
   \<and> map_option next_change_time
        (running (step sample_config flagged_voice_env sample_session empty_world)) = Some 100
   \<and> is_play (last (trace
        (outcome_world (step sample_config flagged_voice_env sample_session empty_world))))"
  using failed_cycle_keeps_timer[of empty_world sample_config flagged_voice_env sample_session]
  by (simp add: eval_simps new_actions_def cong: io_bind_weak_cong)

text \<open>
  Claim C1 as stated fails: a daydream cycle started by the expired timer (clock at 200,
  \<^verbatim>\<open>next_change_time\<close> at 100) and refused by the moderation gate returns to event polling
  with \<^verbatim>\<open>next_change_time\<close> still at 100.
\<close>

theorem failed_daydream_not_rescheduled:
  "dispatched sample_config flagged_env sample_session empty_world = Some Daydream
   \<and> ShowStatus ''Creation failed!''
       \<in> set (trace (outcome_world (step sample_config flagged_env sample_session empty_world)))
   \<and> map_option daydream
        (running (step sample_config flagged_env sample_session empty_world)) = Some True
   \<and> next_change_time sample_session = 100
   \<and> monotonic flagged_env 1 = 200
   \<and> map_option next_change_time
        (running (step sample_config flagged_env sample_session empty_world)) = Some 100"
  by (simp add: failed_daydream_step)
     (simp add: dispatched_def sample_defs advance_def)







section \<open>Cycles that succeed\<close>

text \<open>
  A pass of the loop that saves a screenshot has written the three files of one creation
  under one name of twelve lowercase letters in the output directory: the text file, the raw
  image, and last of all the composed scene.
\<close>

theorem artifacts_under_one_name:
  assumes "list_ex is_screenshot (new_actions w (outcome_world (step cfg ev s w)))"
  shows "\<exists>name img_bytes.
           text_file_written cfg name (new_actions w (outcome_world (step cfg ev s w)))
         \<and> WriteImage (path_join (output_dir cfg) (name @ ''.png'')) img_bytes
             \<in> set (new_actions w (outcome_world (step cfg ev s w)))
         \<and> last (new_actions w (outcome_world (step cfg ev s w)))
             = SaveScreenshot (path_join (output_dir cfg) (name @ ''-verse.png''))"
proof (rule step_cases[of "\<lambda>a. \<not> is_screenshot a" cfg ev s w])
  assume "step cfg ev s w = Running s (advance (advance w))"
  then show ?thesis using assms by (simp add: new_actions_def advance_def)
next
  assume "step cfg ev s w = Shutdown (emit PygameQuit (advance (advance w)))"
  then show ?thesis using assms by (simp add: new_actions_def advance_def emit_def)
next
  fix s1 assume "step cfg ev s w = to_outcome (reschedule cfg ev s1 (advance (advance w)))"
  then show ?thesis using assms by (simp add: new_actions_def advance_def)
next
  fix s1 w1
  assume "adds (\<lambda>a. \<not> is_screenshot a) w w1" "step cfg ev s w = Running s1 w1"
  then show ?thesis using assms no_screenshot_added by fastforce
next
  fix e w1
  assume "adds (\<lambda>a. \<not> is_screenshot a) w w1" "step cfg ev s w = Crashed e w1"
  then show ?thesis using assms no_screenshot_added by fastforce
next
  fix s1 name w1
  assume h: "adds (\<lambda>a. \<not> is_screenshot a) w w1"
    "step cfg ev s w = to_outcome (creation_failed cfg ev s1 w1)"
  have a: "adds (\<lambda>a. \<not> is_screenshot a) w (emit (ShowStatus ''Creation failed!'') w1)"
    by (rule adds_emit, simp, rule h(1))
  have b: "adds (\<lambda>a. \<not> is_screenshot a) (emit (ShowStatus ''Creation failed!'') w1)
          (world_of (creation_failed cfg ev s1 w1))"
    by (rule adds_creation_failed) simp_all
  have "adds (\<lambda>a. \<not> is_screenshot a) w (outcome_world (step cfg ev s w))"
    using adds_trans[OF a b] h(2) by simp
  then show ?thesis using assms no_screenshot_added by blast
next
  fix s1 name img_bytes w1
  assume h0: "adds (\<lambda>a. \<not> is_screenshot a) w w1"
    "prompt_filed cfg name (msg s1) (new_actions w w1)"
    "step cfg ev s w = to_outcome (creation_succeeded cfg ev s1 name img_bytes w1)"
  have h: "adds (\<lambda>a. \<not> is_screenshot a) w w1"
    "text_file_written cfg name (new_actions w w1)"
    "step cfg ev s w = to_outcome (creation_succeeded cfg ev s1 name img_bytes w1)"
    using h0 by (simp_all add: prompt_filed_written)
  from creation_succeeded_trace[of w1 cfg ev s1 name img_bytes]
  show ?thesis
  proof
    assume "adds (\<lambda>a. \<not> is_screenshot a) w1
        (world_of (creation_succeeded cfg ev s1 name img_bytes w1))"
    then have "adds (\<lambda>a. \<not> is_screenshot a) w (outcome_world (step cfg ev s w))"
      using h(1,3) adds_trans by fastforce
    then show ?thesis using assms no_screenshot_added by blast
  next
    assume "\<exists>xs verse img_side.
      trace (world_of (creation_succeeded cfg ev s1 name img_bytes w1)) =
        trace w1 @ xs @
          [WriteImage (path_join (output_dir cfg) (name @ ''.png'')) img_bytes,
           ShowCreation verse img_side,
           SaveScreenshot (path_join (output_dir cfg) (name @ ''-verse.png''))]
      \<and> list_all (\<lambda>a. \<not> is_screenshot a) xs"
    then obtain xs verse img_side where t:
      "trace (world_of (creation_succeeded cfg ev s1 name img_bytes w1)) =
        trace w1 @ xs @
          [WriteImage (path_join (output_dir cfg) (name @ ''.png'')) img_bytes,
           ShowCreation verse img_side,
           SaveScreenshot (path_join (output_dir cfg) (name @ ''-verse.png''))]"
      by blast
    obtain ys where ys: "trace w1 = trace w @ ys"
      using h(1) by (auto simp: adds_def)
    have n1: "new_actions w w1 = ys" using ys by (simp add: new_actions_def)
    have n: "new_actions w (outcome_world (step cfg ev s w)) = ys @ xs @
          [WriteImage (path_join (output_dir cfg) (name @ ''.png'')) img_bytes,
           ShowCreation verse img_side,
           SaveScreenshot (path_join (output_dir cfg) (name @ ''-verse.png''))]"
      using h(3) t ys by (simp add: new_actions_def)
    have "text_file_written cfg name (new_actions w (outcome_world (step cfg ev s w)))"
      using h(2) unfolding n n1 by (simp add: text_file_written_def)
    then show ?thesis unfolding n by (intro exI[of _ name] exI[of _ img_bytes]) simp
  qed
qed simp_all

theorem artifacts_under_one_name_witness:
  "text_file_written sample_config ''aaaaaaaaaaaa''
     (new_actions empty_world
        (outcome_world (step sample_config daydream_env sample_session empty_world)))
   \<and> WriteImage ''out/aaaaaaaaaaaa.png'' ''PNG''
       \<in> set (new_actions empty_world
            (outcome_world (step sample_config daydream_env sample_session empty_world)))
   \<and> last (new_actions empty_world
        (outcome_world (step sample_config daydream_env sample_session empty_world)))
       = SaveScreenshot ''out/aaaaaaaaaaaa-verse.png''"
  using artifacts_under_one_name[of empty_world sample_config daydream_env sample_session]
  by (simp add: eval_simps new_actions_def text_file_written_def cong: io_bind_weak_cong)

end
